theory Spec2Isabelle
  imports Complex_Main
begin

section \<open>Duplicating a donor mesh along an edge\<close>

text \<open>
  A shallow embedding of \<^verbatim>\<open>nodes/modifier_change/objects_along_edge.py\<close>: the
  Householder construction of the orientation (\<^verbatim>\<open>householder\<close>, \<^verbatim>\<open>autorotate\<close>), the
  extent of the donor (\<^verbatim>\<open>diameter\<close>), the count policies (\<^verbatim>\<open>count_funcs\<close>,
  \<^verbatim>\<open>get_count\<close>), the placement (\<^verbatim>\<open>duplicate_vertices\<close>) and the loop of \<^verbatim>\<open>process\<close>.

  Python floats (and the single-precision floats of \<^verbatim>\<open>mathutils\<close>) are idealised as
  the reals: every statement below is about the arithmetic the code writes down, not about
  its rounding. Python integers are \<open>int\<close>. Each exception the code can raise is a value
  of \<open>py_error\<close>, and a function that can raise returns \<open>py_error + 'a\<close>.
\<close>

subsection \<open>Exceptions\<close>

datatype py_error = ZeroDivisionError | ValueError | IndexError | AssertionError

subsection \<open>mathutils.Vector\<close>

datatype vector = Vector (vx: real) (vy: real) (vz: real)

text \<open>\<^verbatim>\<open>a + b\<close>, \<^verbatim>\<open>a - b\<close>, \<^verbatim>\<open>s * a\<close> (and \<^verbatim>\<open>a * s\<close>) on vectors.\<close>

fun v_add :: "vector \<Rightarrow> vector \<Rightarrow> vector" where
  "v_add (Vector a b c) (Vector x y z) = Vector (a + x) (b + y) (c + z)"

fun v_sub :: "vector \<Rightarrow> vector \<Rightarrow> vector" where
  "v_sub (Vector a b c) (Vector x y z) = Vector (a - x) (b - y) (c - z)"

fun v_scale :: "real \<Rightarrow> vector \<Rightarrow> vector" where
  "v_scale s (Vector x y z) = Vector (s * x) (s * y) (s * z)"

fun v_dot :: "vector \<Rightarrow> vector \<Rightarrow> real" where
  "v_dot (Vector a b c) (Vector x y z) = a * x + b * y + c * z"

text \<open>\<^verbatim>\<open>v.length\<close>: the Euclidean norm.\<close>

definition v_length :: "vector \<Rightarrow> real" where
  "v_length v = sqrt (v_dot v v)"

text \<open>
  \<^verbatim>\<open>v.normalized()\<close>. The library does not raise on the zero vector: it returns the
  zero vector (\<^verbatim>\<open>normalize_vn_vn\<close> fills the result with zeros when the squared length
  is not positive), and divides by the length otherwise.
\<close>

definition normalized :: "vector \<Rightarrow> vector" where
  "normalized v = (if v_length v = 0 then Vector 0 0 0 else v_scale (1 / v_length v) v)"

text \<open>\<^verbatim>\<open>v[i]\<close>: Python raises \<^verbatim>\<open>IndexError\<close> outside the three components.\<close>

definition v_index :: "vector \<Rightarrow> nat \<Rightarrow> py_error + real" where
  "v_index v i =
     (if i = 0 then Inr (vx v) else if i = 1 then Inr (vy v)
      else if i = 2 then Inr (vz v) else Inl IndexError)"

subsection \<open>mathutils.Matrix (4 by 4, a tuple of rows)\<close>

type_synonym row4 = "real \<times> real \<times> real \<times> real"
type_synonym matrix = "row4 \<times> row4 \<times> row4 \<times> row4"

text \<open>\<^verbatim>\<open>Matrix()\<close> is the identity.\<close>

definition Matrix_identity :: matrix where
  "Matrix_identity = ((1, 0, 0, 0), (0, 1, 0, 0), (0, 0, 1, 0), (0, 0, 0, 1))"

fun row_sub :: "row4 \<Rightarrow> row4 \<Rightarrow> row4" where
  "row_sub (a, b, c, d) (x, y, z, w) = (a - x, b - y, c - z, d - w)"

fun row_scale :: "real \<Rightarrow> row4 \<Rightarrow> row4" where
  "row_scale s (x, y, z, w) = (s * x, s * y, s * z, s * w)"

fun row_dot :: "row4 \<Rightarrow> row4 \<Rightarrow> real" where
  "row_dot (a, b, c, d) (x, y, z, w) = a * x + b * y + c * z + d * w"

fun m_sub :: "matrix \<Rightarrow> matrix \<Rightarrow> matrix" where
  "m_sub (a, b, c, d) (x, y, z, w) = (row_sub a x, row_sub b y, row_sub c z, row_sub d w)"

fun m_scale :: "real \<Rightarrow> matrix \<Rightarrow> matrix" where
  "m_scale s (x, y, z, w) = (row_scale s x, row_scale s y, row_scale s z, row_scale s w)"

fun m_transpose :: "matrix \<Rightarrow> matrix" where
  "m_transpose ((a1, a2, a3, a4), (b1, b2, b3, b4), (c1, c2, c3, c4), (d1, d2, d3, d4)) =
     ((a1, b1, c1, d1), (a2, b2, c2, d2), (a3, b3, c3, d3), (a4, b4, c4, d4))"

fun row_times :: "row4 \<Rightarrow> matrix \<Rightarrow> row4" where
  "row_times r (c1, c2, c3, c4) = (row_dot r c1, row_dot r c2, row_dot r c3, row_dot r c4)"

text \<open>\<^verbatim>\<open>A * B\<close>: the matrix product (rows of \<open>A\<close> against columns of \<open>B\<close>).\<close>

fun m_mul :: "matrix \<Rightarrow> matrix \<Rightarrow> matrix" where
  "m_mul (r1, r2, r3, r4) B =
     (row_times r1 (m_transpose B), row_times r2 (m_transpose B),
      row_times r3 (m_transpose B), row_times r4 (m_transpose B))"

text \<open>
  \<^verbatim>\<open>M * v\<close> for a 4 by 4 matrix and a 3D vector: the vector is extended by a fourth
  component 1 and the first three components of the product are returned.
\<close>

fun m_apply :: "matrix \<Rightarrow> vector \<Rightarrow> vector" where
  "m_apply (r1, r2, r3, r4) (Vector x y z) =
     Vector (row_dot r1 (x, y, z, 1)) (row_dot r2 (x, y, z, 1)) (row_dot r3 (x, y, z, 1))"

text \<open>\<^verbatim>\<open>Matrix.Translation(o)\<close>.\<close>

fun Matrix_Translation :: "vector \<Rightarrow> matrix" where
  "Matrix_Translation (Vector x y z) = ((1, 0, 0, x), (0, 1, 0, y), (0, 0, 1, z), (0, 0, 0, 1))"

text \<open>\<^verbatim>\<open>Matrix.Scale(factor, 4)\<close>: uniform scale of the three axes.\<close>

definition Matrix_Scale :: "real \<Rightarrow> matrix" where
  "Matrix_Scale s = ((s, 0, 0, 0), (0, s, 0, 0), (0, 0, s, 0), (0, 0, 0, 1))"

text \<open>
  \<^verbatim>\<open>Matrix.Scale(factor, 4, axis)\<close>: scale along the (normalised) axis only,
  \<open>I + (factor - 1) a a\<^sup>T\<close> on the 3 by 3 block.
\<close>

definition Matrix_Scale_axis :: "real \<Rightarrow> vector \<Rightarrow> matrix" where
  "Matrix_Scale_axis s axis =
     (let a = normalized axis; x = vx a; y = vy a; z = vz a in
      ((1 + (s - 1) * (x * x), (s - 1) * (x * y), (s - 1) * (x * z), 0),
       ((s - 1) * (x * y), 1 + (s - 1) * (y * y), (s - 1) * (y * z), 0),
       ((s - 1) * (x * z), (s - 1) * (y * z), 1 + (s - 1) * (z * z), 0),
       (0, 0, 0, 1)))"

text \<open>Determinant: 3 by 3 by Sarrus, 4 by 4 by expansion along the first row.\<close>

definition det3 :: "real \<Rightarrow> real \<Rightarrow> real \<Rightarrow> real \<Rightarrow> real \<Rightarrow> real \<Rightarrow> real \<Rightarrow> real \<Rightarrow> real \<Rightarrow> real" where
  "det3 a b c d e f g h i = a * (e * i - f * h) - b * (d * i - f * g) + c * (d * h - e * g)"

fun m_det :: "matrix \<Rightarrow> real" where
  "m_det ((a1, a2, a3, a4), (b1, b2, b3, b4), (c1, c2, c3, c4), (d1, d2, d3, d4)) =
     a1 * det3 b2 b3 b4 c2 c3 c4 d2 d3 d4 - a2 * det3 b1 b3 b4 c1 c3 c4 d1 d3 d4
     + a3 * det3 b1 b2 b4 c1 c2 c4 d1 d2 d4 - a4 * det3 b1 b2 b3 c1 c2 c3 d1 d2 d3"

text \<open>The adjugate (transposed matrix of cofactors).\<close>

fun m_adjugate :: "matrix \<Rightarrow> matrix" where
  "m_adjugate ((a1, a2, a3, a4), (b1, b2, b3, b4), (c1, c2, c3, c4), (d1, d2, d3, d4)) =
     ((  det3 b2 b3 b4 c2 c3 c4 d2 d3 d4, - det3 a2 a3 a4 c2 c3 c4 d2 d3 d4,
         det3 a2 a3 a4 b2 b3 b4 d2 d3 d4, - det3 a2 a3 a4 b2 b3 b4 c2 c3 c4),
      (- det3 b1 b3 b4 c1 c3 c4 d1 d3 d4,   det3 a1 a3 a4 c1 c3 c4 d1 d3 d4,
       - det3 a1 a3 a4 b1 b3 b4 d1 d3 d4,   det3 a1 a3 a4 b1 b3 b4 c1 c3 c4),
      (  det3 b1 b2 b4 c1 c2 c4 d1 d2 d4, - det3 a1 a2 a4 c1 c2 c4 d1 d2 d4,
         det3 a1 a2 a4 b1 b2 b4 d1 d2 d4, - det3 a1 a2 a4 b1 b2 b4 c1 c2 c4),
      (- det3 b1 b2 b3 c1 c2 c3 d1 d2 d3,   det3 a1 a2 a3 c1 c2 c3 d1 d2 d3,
       - det3 a1 a2 a3 b1 b2 b3 d1 d2 d3,   det3 a1 a2 a3 b1 b2 b3 c1 c2 c3))"

text \<open>
  \<^verbatim>\<open>M.inverted()\<close>: the inverse, adjugate over determinant; the library raises
  \<^verbatim>\<open>ValueError\<close> (matrix does not have an inverse) when the determinant is zero.
\<close>

definition inverted :: "matrix \<Rightarrow> py_error + matrix" where
  "inverted m = (if m_det m = 0 then Inl ValueError else Inr (m_scale (1 / m_det m) (m_adjugate m)))"

subsection \<open>The module-level functions\<close>

text \<open>\<^verbatim>\<open>householder(u)\<close>: \<^verbatim>\<open>Matrix() - 2*m\<close> with \<open>m\<close> the outer product of \<open>u\<close> with itself.\<close>

fun householder :: "vector \<Rightarrow> matrix" where
  "householder (Vector x y z) =
     (let m = ((x * x, x * y, x * z, 0), (x * y, y * y, y * z, 0), (x * z, y * z, z * z, 0),
               (0, 0, 0, 0));
          h = m_sub Matrix_identity (m_scale 2 m)
      in h)"

text \<open>\<^verbatim>\<open>autorotate(e1, xx)\<close>.\<close>

definition autorotate :: "vector \<Rightarrow> vector \<Rightarrow> matrix" where
  "autorotate e1 xx =
     (let alpha = v_length xx;
          u = v_sub xx (v_scale alpha e1);
          v = normalized u;
          q = householder v
      in q)"

text \<open>Python's \<^verbatim>\<open>max\<close> and \<^verbatim>\<open>min\<close> of a list raise \<^verbatim>\<open>ValueError\<close> on the empty list.\<close>

fun py_max :: "real list \<Rightarrow> py_error + real" where
  "py_max [] = Inl ValueError"
| "py_max (x # xs) = Inr (fold max xs x)"

fun py_min :: "real list \<Rightarrow> py_error + real" where
  "py_min [] = Inl ValueError"
| "py_min (x # xs) = Inr (fold min xs x)"

text \<open>The comprehension \<^verbatim>\<open>[vertex[axis] for vertex in vertices]\<close>: the first failing index raises.\<close>

fun components :: "vector list \<Rightarrow> nat \<Rightarrow> py_error + real list" where
  "components [] axis = Inr []"
| "components (vertex # vertices) axis =
     (case v_index vertex axis of
        Inl e \<Rightarrow> Inl e
      | Inr x \<Rightarrow> (case components vertices axis of Inl e \<Rightarrow> Inl e | Inr xs \<Rightarrow> Inr (x # xs)))"

text \<open>\<^verbatim>\<open>diameter(vertices, axis)\<close>.\<close>

definition diameter :: "vector list \<Rightarrow> nat \<Rightarrow> py_error + real" where
  "diameter vertices axis =
     (case components vertices axis of
        Inl e \<Rightarrow> Inl e
      | Inr xs \<Rightarrow>
          (case py_max xs of
             Inl e \<Rightarrow> Inl e
           | Inr M \<Rightarrow> (case py_min xs of Inl e \<Rightarrow> Inl e | Inr m \<Rightarrow> Inr (M - m))))"

definition all_axes :: "vector list" where
  "all_axes = [Vector 1 0 0, Vector 0 1 0, Vector 0 0 1]"

subsection \<open>The node: its properties\<close>

datatype count_mode = Count | Up | Down | Off

datatype axis = X | Y | Z

text \<open>
  The properties of the node that the computation reads. The enum property
  \<^verbatim>\<open>orient_axis_\<close> is the field \<open>orient_axis_prop\<close> (a name cannot end in an underscore here).
\<close>

record node =
  count_mode :: count_mode
  orient_axis_prop :: axis
  scale_all :: bool
  apply_matrices :: bool

text \<open>\<^verbatim>\<open>get_axis_idx\<close>, the property \<^verbatim>\<open>orient_axis\<close>.\<close>

definition orient_axis :: "node \<Rightarrow> nat" where
  "orient_axis self =
     (if orient_axis_prop self = X then 0 else if orient_axis_prop self = Y then 1 else 2)"

text \<open>\<^verbatim>\<open>get_scale_off\<close>, the property \<^verbatim>\<open>scale_off\<close>.\<close>

definition scale_off :: "node \<Rightarrow> bool" where
  "scale_off self = (count_mode self = Off)"

text \<open>Python's float division raises on a zero divisor.\<close>

definition py_div :: "real \<Rightarrow> real \<Rightarrow> py_error + real" where
  "py_div a b = (if b = 0 then Inl ZeroDivisionError else Inr (a / b))"

subsection \<open>The count policies\<close>

definition count_const :: "node \<Rightarrow> vector \<Rightarrow> vector \<Rightarrow> vector list \<Rightarrow> int \<Rightarrow> py_error + int" where
  "count_const self v1 v2 vertices count = Inr count"

definition count_up :: "node \<Rightarrow> vector \<Rightarrow> vector \<Rightarrow> vector list \<Rightarrow> int \<Rightarrow> py_error + int" where
  "count_up self v1 v2 vertices count =
     (let distance = v_length (v_sub v1 v2) in
      case diameter vertices (orient_axis self) of
        Inl e \<Rightarrow> Inl e
      | Inr donor_size \<Rightarrow>
          (case py_div distance donor_size of Inl e \<Rightarrow> Inl e | Inr q \<Rightarrow> Inr (floor q)))"

definition count_down :: "node \<Rightarrow> vector \<Rightarrow> vector \<Rightarrow> vector list \<Rightarrow> int \<Rightarrow> py_error + int" where
  "count_down self v1 v2 vertices count =
     (let distance = v_length (v_sub v1 v2) in
      case diameter vertices (orient_axis self) of
        Inl e \<Rightarrow> Inl e
      | Inr donor_size \<Rightarrow>
          (case py_div distance donor_size of Inl e \<Rightarrow> Inl e | Inr q \<Rightarrow> Inr (ceiling q)))"

text \<open>The dictionary \<^verbatim>\<open>count_funcs\<close>: \<^verbatim>\<open>"off"\<close> is bound to \<^verbatim>\<open>count_up\<close>.\<close>

fun count_funcs :: "count_mode \<Rightarrow> node \<Rightarrow> vector \<Rightarrow> vector \<Rightarrow> vector list \<Rightarrow> int \<Rightarrow> py_error + int" where
  "count_funcs Count = count_const"
| "count_funcs Up = count_up"
| "count_funcs Down = count_down"
| "count_funcs Off = count_up"

definition get_count :: "node \<Rightarrow> vector \<Rightarrow> vector \<Rightarrow> vector list \<Rightarrow> int \<Rightarrow> py_error + int" where
  "get_count self v1 v2 vertices count =
     (let func = count_funcs (count_mode self) in func self v1 v2 vertices count)"

subsection \<open>Placement\<close>

text \<open>
  \<^verbatim>\<open>np.linspace(start, stop, num)\<close>: \<open>num\<close> evenly spaced samples with both ends
  included, \<open>start + i * ((stop - start) / (num - 1))\<close>; a negative \<open>num\<close> raises
  \<^verbatim>\<open>ValueError\<close>, and a single sample is \<open>start\<close>.
\<close>

definition linspace :: "real \<Rightarrow> real \<Rightarrow> int \<Rightarrow> py_error + real list" where
  "linspace start stop num =
     (if num < 0 then Inl ValueError
      else if num = 1 then Inr [start]
      else Inr (map (\<lambda>i. start + real i * ((stop - start) / real_of_int (num - 1))) [0..<nat num]))"

text \<open>
  The first lines of \<^verbatim>\<open>duplicate_vertices\<close> up to the assertion: the origins of the
  instances. \<^verbatim>\<open>edge_length / count\<close> raises on \<open>count = 0\<close>; the slice \<^verbatim>\<open>[:-1]\<close>
  is \<open>butlast\<close>.
\<close>

definition origins :: "vector \<Rightarrow> vector \<Rightarrow> int \<Rightarrow> py_error + vector list" where
  "origins v1 v2 count =
     (let direction = v_sub v2 v1;
          edge_length = v_length direction in
      case py_div edge_length (real_of_int count) of
        Inl e \<Rightarrow> Inl e
      | Inr one_item_length \<Rightarrow>
          (let u = normalized direction in
           case linspace 0 1 (count + 1) of
             Inl e \<Rightarrow> Inl e
           | Inr xs \<Rightarrow>
               (let os = butlast (map (\<lambda>x. v_add (v_add v1 (v_scale x direction))
                                                 (v_scale (0.5 * one_item_length) u)) xs)
                in if int (length os) = count then Inr os else Inl AssertionError)))"

text \<open>The constant \<^verbatim>\<open>flip\<close> of \<^verbatim>\<open>duplicate_vertices\<close>.\<close>

definition flip :: matrix where
  "flip = ((-1, 0, 0, 0), (0, 1, 0, 0), (0, 0, 1, 0), (0, 0, 0, 1))"

text \<open>\<^verbatim>\<open>all_axes[i]\<close>.\<close>

definition all_axes_get :: "nat \<Rightarrow> py_error + vector" where
  "all_axes_get i = (if i < length all_axes then Inr (all_axes ! i) else Inl IndexError)"

text \<open>
  \<^verbatim>\<open>duplicate_vertices\<close>, in the order of the source: the step, the extent of the donor,
  the scale factor (computed in every mode), the axis, the origins, the scale matrix
  (\<open>None\<close> when scaling is off), the rotation, and the matrices. The arguments
  \<open>edges\<close> and \<open>faces\<close> are not read.
\<close>

definition duplicate_vertices ::
  "node \<Rightarrow> vector \<Rightarrow> vector \<Rightarrow> vector list \<Rightarrow> 'e \<Rightarrow> 'f \<Rightarrow> int
     \<Rightarrow> py_error + (matrix list \<times> vector list list)" where
  "duplicate_vertices self v1 v2 vertices edges faces count =
     (let direction = v_sub v2 v1;
          edge_length = v_length direction in
      case py_div edge_length (real_of_int count) of
        Inl e \<Rightarrow> Inl e
      | Inr one_item_length \<Rightarrow>
     (case diameter vertices (orient_axis self) of
        Inl e \<Rightarrow> Inl e
      | Inr actual_length \<Rightarrow>
     (case py_div one_item_length actual_length of
        Inl e \<Rightarrow> Inl e
      | Inr x_scale \<Rightarrow>
     (case all_axes_get (orient_axis self) of
        Inl e \<Rightarrow> Inl e
      | Inr x \<Rightarrow>
     (case origins v1 v2 count of
        Inl e \<Rightarrow> Inl e
      | Inr os \<Rightarrow>
     (let scale = (if scale_off self then None
                   else if scale_all self then Some (Matrix_Scale x_scale)
                   else Some (Matrix_Scale_axis x_scale x)) in
      case inverted (autorotate x direction) of
        Inl e \<Rightarrow> Inl e
      | Inr rot \<Rightarrow>
     (let matrices =
            (case scale of
               None \<Rightarrow> map (\<lambda>o'. m_mul (m_mul (Matrix_Translation o') rot) flip) os
             | Some sc \<Rightarrow>
                 map (\<lambda>o'. m_mul (m_mul (m_mul (Matrix_Translation o') rot) sc) flip) os);
          result_vertices =
            (if apply_matrices self
             then map (\<lambda>m. map (\<lambda>vertex. m_apply m vertex) vertices) matrices
             else replicate (nat count) vertices)
      in Inr (matrices, result_vertices))))))))"

subsection \<open>The loop of process\<close>

text \<open>
  One aligned tuple of the loop: \<^verbatim>\<open>vertices, edges, faces, vertex1, vertex2, inp_count\<close>.
\<close>

type_synonym ('e, 'f) mesh = "vector list \<times> 'e \<times> 'f \<times> vector \<times> vector \<times> int"

text \<open>
  The four result lists, in the order \<^verbatim>\<open>result_matrices, result_vertices, result_edges,
  result_faces\<close>.
\<close>

type_synonym ('e, 'f) results = "matrix list \<times> vector list list \<times> 'e list \<times> 'f list"

text \<open>
  The \<^verbatim>\<open>for\<close> loop of \<^verbatim>\<open>process\<close> over the aligned tuples, with the four result lists
  as the state. An exception in one tuple leaves the loop (and \<^verbatim>\<open>process\<close>).
\<close>

fun process_loop :: "node \<Rightarrow> ('e, 'f) mesh list \<Rightarrow> ('e, 'f) results \<Rightarrow> py_error + ('e, 'f) results" where
  "process_loop self [] res = Inr res"
| "process_loop self ((vertices, edges, faces, vertex1, vertex2, inp_count) # meshes)
       (result_matrices, result_vertices, result_edges, result_faces) =
     (case get_count self vertex1 vertex2 vertices inp_count of
        Inl e \<Rightarrow> Inl e
      | Inr count0 \<Rightarrow>
      (let count = max count0 1 in
       case duplicate_vertices self vertex1 vertex2 vertices edges faces count of
         Inl e \<Rightarrow> Inl e
       | Inr (new_matrices, new_vertices) \<Rightarrow>
           process_loop self meshes
             (result_matrices @ new_matrices,
              result_vertices @ new_vertices,
              result_edges @ replicate (nat count) edges,
              result_faces @ replicate (nat count) faces)))"

text \<open>
  What one run of the loop body appends to the (empty) result lists for a single tuple.
\<close>

definition process_item :: "node \<Rightarrow> ('e, 'f) mesh \<Rightarrow> py_error + ('e, 'f) results" where
  "process_item self mesh = process_loop self [mesh] ([], [], [], [])"

subsection \<open>The Broadcast Aligner\<close>

text \<open>
  \<^verbatim>\<open>match_long_repeat\<close> is imported from \<^verbatim>\<open>sverchok.data_structure\<close>, whose source is
  not part of the files at hand; \<^verbatim>\<open>process\<close> calls it on the six input sequences.
\<close>

datatype aligner_error = EmptyInputError

text \<open>
  Modelled from the spec: the body of \<^verbatim>\<open>match_long_repeat\<close> is missing. The spec's
  Broadcast Aligner expands the sequences to their common (longest) length by repeating
  each sequence's last element, and fails with \<^verbatim>\<open>EmptyInputError\<close> if any input sequence
  has length 0.
\<close>

definition repeat_last :: "nat \<Rightarrow> 'a list \<Rightarrow> 'a list" where
  "repeat_last n l = l @ replicate (n - length l) (last l)"

definition match_long_repeat :: "'a list list \<Rightarrow> aligner_error + 'a list list" where
  "match_long_repeat lsts =
     (if list_ex (\<lambda>l. length l = 0) lsts then Inl EmptyInputError
      else Inr (map (repeat_last (fold max (map length lsts) 0)) lsts))"

section \<open>Properties\<close>

subsection \<open>Vectors\<close>

lemma v_dot_self_nonneg: "0 \<le> v_dot v v"
  by (cases v) simp

lemma v_length_nonneg: "0 \<le> v_length v"
  by (simp add: v_length_def v_dot_self_nonneg)

lemma sum3_squares_eq_0_iff:
  "x * x + y * y + z * z = 0 \<longleftrightarrow> x = 0 \<and> y = 0 \<and> z = (0::real)"
proof
  assume h: "x * x + y * y + z * z = 0"
  have "0 \<le> x * x" "0 \<le> y * y" "0 \<le> z * z" by simp_all
  with h have "x * x = 0" "y * y = 0" "z * z = 0" by linarith+
  then show "x = 0 \<and> y = 0 \<and> z = 0" by simp
qed simp

lemma v_length_eq_0_iff: "v_length v = 0 \<longleftrightarrow> v = Vector 0 0 0"
proof (cases v)
  case (Vector x y z)
  have "0 \<le> x * x + y * y + z * z" by simp
  then show ?thesis using Vector sum3_squares_eq_0_iff [of x y z]
    by (simp add: v_length_def)
qed

lemma v_length_square: "v_length v * v_length v = v_dot v v"
  by (simp add: v_length_def v_dot_self_nonneg)

lemma v_length_sub_swap: "v_length (v_sub a b) = v_length (v_sub b a)"
proof (cases a; cases b)
  fix a1 a2 a3 b1 b2 b3
  assume "a = Vector a1 a2 a3" "b = Vector b1 b2 b3"
  then show ?thesis
    by (simp add: v_length_def algebra_simps)
qed

text \<open>The length of a vector along one axis, for evaluating concrete inputs.\<close>

lemma v_length_x [simp]: "v_length (Vector x 0 0) = \<bar>x\<bar>"
  and v_length_y [simp]: "v_length (Vector 0 y 0) = \<bar>y\<bar>"
  and v_length_z [simp]: "v_length (Vector 0 0 z) = \<bar>z\<bar>"
  by (simp_all add: v_length_def)

lemma v_scale_length_normalized:
  "v_scale (c * v_length d) (normalized d) = v_scale c d"
proof (cases "v_length d = 0")
  case True
  then have "d = Vector 0 0 0" by (simp add: v_length_eq_0_iff)
  then show ?thesis by (simp add: normalized_def)
next
  case False
  then show ?thesis by (cases d) (simp add: normalized_def)
qed

subsection \<open>Matrices\<close>

text \<open>
  The model of \<^verbatim>\<open>inverted()\<close> is a two-sided inverse: the product of a matrix with its
  adjugate is the determinant times the identity.
\<close>

lemma m_mul_adjugate: "m_mul m (m_adjugate m) = m_scale (m_det m) Matrix_identity"
proof (cases m rule: prod_cases4)
  case (fields r1 r2 r3 r4)
  then show ?thesis
    by (cases r1 rule: prod_cases4; cases r2 rule: prod_cases4;
        cases r3 rule: prod_cases4; cases r4 rule: prod_cases4)
       (simp add: Matrix_identity_def det3_def algebra_simps)
qed

lemma m_adjugate_mul: "m_mul (m_adjugate m) m = m_scale (m_det m) Matrix_identity"
proof (cases m rule: prod_cases4)
  case (fields r1 r2 r3 r4)
  then show ?thesis
    by (cases r1 rule: prod_cases4; cases r2 rule: prod_cases4;
        cases r3 rule: prod_cases4; cases r4 rule: prod_cases4)
       (simp add: Matrix_identity_def det3_def algebra_simps)
qed

lemma m_mul_scale_right: "m_mul a (m_scale c b) = m_scale c (m_mul a b)"
proof (cases a rule: prod_cases4; cases b rule: prod_cases4)
  fix a1 a2 a3 a4 b1 b2 b3 b4
  assume "a = (a1, a2, a3, a4)" "b = (b1, b2, b3, b4)"
  then show ?thesis
    by (cases a1 rule: prod_cases4; cases a2 rule: prod_cases4;
        cases a3 rule: prod_cases4; cases a4 rule: prod_cases4;
        cases b1 rule: prod_cases4; cases b2 rule: prod_cases4;
        cases b3 rule: prod_cases4; cases b4 rule: prod_cases4)
       (simp add: algebra_simps)
qed

lemma m_mul_scale_left: "m_mul (m_scale c a) b = m_scale c (m_mul a b)"
proof (cases a rule: prod_cases4; cases b rule: prod_cases4)
  fix a1 a2 a3 a4 b1 b2 b3 b4
  assume "a = (a1, a2, a3, a4)" "b = (b1, b2, b3, b4)"
  then show ?thesis
    by (cases a1 rule: prod_cases4; cases a2 rule: prod_cases4;
        cases a3 rule: prod_cases4; cases a4 rule: prod_cases4;
        cases b1 rule: prod_cases4; cases b2 rule: prod_cases4;
        cases b3 rule: prod_cases4; cases b4 rule: prod_cases4)
       (simp add: algebra_simps)
qed

lemma m_scale_scale_identity: "c \<noteq> 0 \<Longrightarrow> m_scale (1 / c) (m_scale c Matrix_identity) = Matrix_identity"
  by (simp add: Matrix_identity_def)

lemma inverted_is_inverse:
  assumes "inverted m = Inr r"
  shows "m_mul m r = Matrix_identity \<and> m_mul r m = Matrix_identity"
proof -
  from assms have d: "m_det m \<noteq> 0" and r: "r = m_scale (1 / m_det m) (m_adjugate m)"
    by (auto simp add: inverted_def split: if_splits)
  show ?thesis
    unfolding r m_mul_scale_right m_mul_scale_left m_mul_adjugate m_adjugate_mul
    by (simp add: m_scale_scale_identity [OF d])
qed


subsection \<open>The Count Resolver\<close>

text \<open>A unit donor along X: two vertices one unit apart.\<close>

lemma diameter_unit_donor: "diameter [Vector 0 0 0, Vector 1 0 0] 0 = Inr 1"
  by (simp add: diameter_def v_index_def)

text \<open>
  Claim C2. For a segment of length \<open>L > 0\<close> and a donor of extent \<open>E > 0\<close> along the
  chosen axis, \<^verbatim>\<open>get_count\<close> returns the requested count itself in mode \<^verbatim>\<open>count\<close>
  (Fixed), \<open>\<lfloor>L / E\<rfloor>\<close> in mode \<^verbatim>\<open>up\<close> (ScaleUp) and \<open>\<lceil>L / E\<rceil>\<close> in mode \<^verbatim>\<open>down\<close>
  (ScaleDown).
\<close>

theorem get_count_resolves:
  assumes "diameter vertices (orient_axis self) = Inr E" and "0 < E"
    and "L = v_length (v_sub v2 v1)" and "0 < L"
  shows "(count_mode self = Count \<longrightarrow> get_count self v1 v2 vertices count = Inr count)
       \<and> (count_mode self = Up \<longrightarrow> get_count self v1 v2 vertices count = Inr \<lfloor>L / E\<rfloor>)
       \<and> (count_mode self = Down \<longrightarrow> get_count self v1 v2 vertices count = Inr \<lceil>L / E\<rceil>)"
  using assms
  by (simp add: get_count_def count_const_def count_up_def count_down_def py_div_def
      v_length_sub_swap [of v1 v2])

theorem get_count_resolves_witness:
  "get_count \<lparr>count_mode = Count, orient_axis_prop = X, scale_all = False, apply_matrices = True\<rparr>
     (Vector 0 0 0) (Vector (7 / 2) 0 0) [Vector 0 0 0, Vector 1 0 0] 5 = Inr 5
   \<and> get_count \<lparr>count_mode = Up, orient_axis_prop = X, scale_all = False, apply_matrices = True\<rparr>
     (Vector 0 0 0) (Vector (7 / 2) 0 0) [Vector 0 0 0, Vector 1 0 0] 5 = Inr 3
   \<and> get_count \<lparr>count_mode = Down, orient_axis_prop = X, scale_all = False, apply_matrices = True\<rparr>
     (Vector 0 0 0) (Vector (7 / 2) 0 0) [Vector 0 0 0, Vector 1 0 0] 5 = Inr 4"
proof -
  let ?donor = "[Vector 0 0 0, Vector 1 0 0]"
  have d: "diameter ?donor (orient_axis \<lparr>count_mode = m, orient_axis_prop = X, scale_all = False,
             apply_matrices = True\<rparr>) = Inr 1" for m
    by (simp add: orient_axis_def diameter_unit_donor)
  have l: "(7 / 2 :: real) = v_length (v_sub (Vector (7 / 2) 0 0) (Vector 0 0 0))"
    by simp
  show ?thesis
    using get_count_resolves [OF d _ l, of Count 5]
      get_count_resolves [OF d _ l, of Up 5]
      get_count_resolves [OF d _ l, of Down 5]
    by simp
qed

subsection \<open>The origins of the instances\<close>

lemma origin_step:
  assumes "0 < c"
  shows "v_add (v_add v1 (v_scale (k * (1 / c)) d)) (v_scale (1 / (2 * c)) d)
       = v_add v1 (v_scale ((k + 1 / 2) / c) d)"
  using assms by (cases v1; cases d) (simp add: field_simps)

lemma butlast_map_upt: "butlast (map f [0..<Suc n]) = map f [0..<n]"
  by simp

lemma origins_eq:
  assumes "1 \<le> count"
  shows "origins v1 v2 count =
     Inr (map (\<lambda>k. v_add v1 (v_scale ((real k + 1 / 2) / real_of_int count) (v_sub v2 v1)))
            [0..<nat count])"
proof -
  define d where "d = v_sub v2 v1"
  define c where "c = real_of_int count"
  define f where "f = (\<lambda>i::nat. v_add (v_add v1 (v_scale (0 + real i * ((1 - 0) / real_of_int (count + 1 - 1))) d))
                             (v_scale (0.5 * (v_length d / c)) (normalized d)))"
  have c: "0 < c" using assms by (simp add: c_def)
  have n: "nat (count + 1) = Suc (nat count)" using assms by simp
  have half: "v_scale (0.5 * (v_length d / c)) (normalized d) = v_scale (1 / (2 * c)) d"
    using v_scale_length_normalized [of "1 / (2 * c)" d] by (simp add: field_simps)
  have fk: "f k = v_add v1 (v_scale ((real k + 1 / 2) / c) d)" for k
    unfolding f_def half using origin_step [OF c, of v1 "real k" d] by (simp add: c_def)
  have "origins v1 v2 count = Inr (map f [0..<nat count])"
    using assms c
    by (simp add: origins_def py_div_def linspace_def n butlast_map_upt f_def d_def c_def
        Let_def comp_def del: upt_Suc)
  then show ?thesis
    by (simp add: fk d_def c_def)
qed

text \<open>
  Claim C3. For a segment \<open>(v1, v2)\<close> and a count of at least 1 there are exactly
  \<open>count\<close> origins, and the \<open>k\<close>-th one is \<open>v1 + (v2 - v1) * ((k + 0.5) / count)\<close>; for
  count 3 on the segment from \<open>(0,0,0)\<close> to \<open>(3,0,0)\<close> they are \<open>(0.5,0,0)\<close>,
  \<open>(1.5,0,0)\<close>, \<open>(2.5,0,0)\<close>.
\<close>

theorem origins_midpoints:
  "(1 \<le> count \<longrightarrow>
      (\<exists>os. origins v1 v2 count = Inr os \<and> int (length os) = count
         \<and> (\<forall>k < nat count.
               os ! k = v_add v1 (v_scale ((real k + 1 / 2) / real_of_int count) (v_sub v2 v1)))))
   \<and> origins (Vector 0 0 0) (Vector 3 0 0) 3
       = Inr [Vector 0.5 0 0, Vector 1.5 0 0, Vector 2.5 0 0]"
proof
  show "1 \<le> count \<longrightarrow>
      (\<exists>os. origins v1 v2 count = Inr os \<and> int (length os) = count
         \<and> (\<forall>k < nat count.
               os ! k = v_add v1 (v_scale ((real k + 1 / 2) / real_of_int count) (v_sub v2 v1))))"
    by (simp add: origins_eq)
  have "[0..<nat 3] = [0, 1, 2]"
    by (simp add: upt_conv_Cons)
  then show "origins (Vector 0 0 0) (Vector 3 0 0) 3
       = Inr [Vector 0.5 0 0, Vector 1.5 0 0, Vector 2.5 0 0]"
    by (simp add: origins_eq)
qed

theorem origins_midpoints_witness:
  "(1::int) \<le> 2
   \<and> (\<exists>os. origins (Vector 1 1 1) (Vector 1 1 5) 2 = Inr os \<and> int (length os) = 2
         \<and> os ! 0 = Vector 1 1 2 \<and> os ! 1 = Vector 1 1 4)"
proof -
  obtain os where os: "origins (Vector 1 1 1) (Vector 1 1 5) 2 = Inr os" "int (length os) = 2"
    and k: "\<forall>k < nat 2.
       os ! k = v_add (Vector 1 1 1)
                  (v_scale ((real k + 1 / 2) / real_of_int 2) (v_sub (Vector 1 1 5) (Vector 1 1 1)))"
    using origins_midpoints [of 2 "Vector 1 1 1" "Vector 1 1 5"] by auto
  from k have "os ! 0 = Vector 1 1 2" "os ! 1 = Vector 1 1 4"
    by simp_all
  with os show ?thesis by simp
qed

subsection \<open>The Householder reflection and its inverse\<close>

lemma householder_zero: "householder (Vector 0 0 0) = Matrix_identity"
  by (simp add: Matrix_identity_def)

lemma householder_expand:
  "householder (Vector x y z) =
     ((1 - 2 * (x * x), - (2 * (x * y)), - (2 * (x * z)), 0),
      (- (2 * (x * y)), 1 - 2 * (y * y), - (2 * (y * z)), 0),
      (- (2 * (x * z)), - (2 * (y * z)), 1 - 2 * (z * z), 0),
      (0, 0, 0, 1))"
  by (simp add: Matrix_identity_def)

lemma m_det_householder:
  "m_det (householder (Vector x y z)) = 1 - 2 * (x * x + y * y + z * z)"
  by (simp add: householder_expand det3_def del: householder.simps) (simp add: algebra_simps)

lemma m_adjugate_householder:
  "m_adjugate (householder (Vector x y z)) =
     (let t = 1 - 2 * (x * x + y * y + z * z) in
      ((t + 2 * (x * x), 2 * (x * y), 2 * (x * z), 0),
       (2 * (x * y), t + 2 * (y * y), 2 * (y * z), 0),
       (2 * (x * z), 2 * (y * z), t + 2 * (z * z), 0),
       (0, 0, 0, t)))"
  by (simp add: householder_expand det3_def Let_def del: householder.simps) (simp add: algebra_simps)

lemma inverted_householder_unit:
  assumes "v_dot v v = 1"
  shows "inverted (householder v) = Inr (householder v)"
proof (cases v)
  case (Vector x y z)
  with assms have u: "x * x + y * y + z * z = 1" by simp
  have d: "m_det (householder v) = - 1"
    using u by (simp add: Vector m_det_householder del: householder.simps)
  have "m_adjugate (householder (Vector x y z)) =
      ((2 * (x * x) - 1, 2 * (x * y), 2 * (x * z), 0),
       (2 * (x * y), 2 * (y * y) - 1, 2 * (y * z), 0),
       (2 * (x * z), 2 * (y * z), 2 * (z * z) - 1, 0),
       (0, 0, 0, - 1))"
    by (simp add: m_adjugate_householder u Let_def del: householder.simps)
  also have "\<dots> = m_scale (- 1) (householder (Vector x y z))"
    by (simp add: householder_expand del: householder.simps)
  finally have a: "m_adjugate (householder v) = m_scale (- 1) (householder v)"
    by (simp only: Vector)
  show ?thesis
    unfolding inverted_def d a by (simp add: Vector householder_expand del: householder.simps)
qed

lemma inverted_identity: "inverted Matrix_identity = Inr Matrix_identity"
  by (simp add: inverted_def Matrix_identity_def det3_def)

lemma normalized_unit:
  assumes "v_length v \<noteq> 0"
  shows "v_dot (normalized v) (normalized v) = 1"
proof (cases v)
  case (Vector x y z)
  have "v_dot (normalized v) (normalized v) = v_dot v v / (v_length v * v_length v)"
    using assms by (simp add: Vector normalized_def) (simp add: field_simps)
  also have "\<dots> = 1"
    using assms by (simp add: v_length_square [symmetric])
  finally show ?thesis .
qed

lemma normalized_zero: "normalized (Vector 0 0 0) = Vector 0 0 0"
  by (simp add: normalized_def)

lemma inverted_autorotate: "inverted (autorotate e1 xx) = Inr (autorotate e1 xx)"
proof (cases "v_length (v_sub xx (v_scale (v_length xx) e1)) = 0")
  case True
  then show ?thesis
    by (simp add: autorotate_def normalized_def Let_def inverted_identity
        del: householder.simps add: householder_zero)
next
  case False
  then show ?thesis
    by (simp add: autorotate_def Let_def inverted_householder_unit normalized_unit)
qed

lemma m_apply_identity: "m_apply Matrix_identity v = v"
  by (cases v) (simp add: Matrix_identity_def)

lemma m_apply_householder:
  "m_apply (householder (Vector x y z)) (Vector a b c) =
     Vector (a - 2 * x * (x * a + y * b + z * c))
            (b - 2 * y * (x * a + y * b + z * c))
            (c - 2 * z * (x * a + y * b + z * c))"
  by (simp add: householder_expand del: householder.simps) (simp add: algebra_simps)

lemma reflect_component:
  fixes a n s uj :: real
  assumes "0 < a" and "n \<noteq> 0" and "n * n = 2 * a * (a - s)"
  shows "2 * (uj / n) * ((s - a) / n) = - uj / a"
proof -
  have "2 * (uj / n) * ((s - a) / n) = 2 * uj * (s - a) / (n * n)"
    by simp
  also have "\<dots> = 2 * uj * (s - a) / (2 * a * (a - s))"
    by (simp only: assms(3))
  also have "\<dots> = - uj / a"
  proof -
    from assms have "a - s \<noteq> 0" by auto
    with assms(1) show ?thesis by (simp add: field_simps)
  qed
  finally show ?thesis .
qed

lemma autorotate_maps_axis:
  assumes e: "v_dot e e = 1" and d: "v_length d \<noteq> 0"
  shows "m_apply (autorotate e d) e = normalized d"
proof (cases "v_length (v_sub d (v_scale (v_length d) e)) = 0")
  case True
  then have "v_sub d (v_scale (v_length d) e) = Vector 0 0 0"
    by (simp add: v_length_eq_0_iff)
  then have de: "d = v_scale (v_length d) e"
    by (cases d; cases e) simp
  have "normalized d = v_scale (1 / v_length d) d"
    using d by (simp add: normalized_def)
  also have "\<dots> = v_scale (1 / v_length d) (v_scale (v_length d) e)"
    by (rule arg_cong [OF de])
  also have "\<dots> = e"
    using d by (cases e) simp
  finally have "normalized d = e" .
  with True show ?thesis
    by (simp add: autorotate_def Let_def normalized_def householder_zero m_apply_identity
        del: householder.simps)
next
  case False
  obtain d1 d2 d3 where dv: "d = Vector d1 d2 d3" by (cases d)
  obtain e1 e2 e3 where ev: "e = Vector e1 e2 e3" by (cases e)
  define a where "a = v_length d"
  define u1 where "u1 = d1 - a * e1"
  define u2 where "u2 = d2 - a * e2"
  define u3 where "u3 = d3 - a * e3"
  define n where "n = v_length (Vector u1 u2 u3)"
  define s where "s = d1 * e1 + d2 * e2 + d3 * e3"
  have a: "0 < a" using d v_length_nonneg [of d] by (simp add: a_def)
  have aa: "a * a = d1 * d1 + d2 * d2 + d3 * d3"
    using v_length_square [of d] by (simp add: a_def dv)
  have ee: "e1 * e1 + e2 * e2 + e3 * e3 = 1" using e by (simp add: ev)
  have u: "v_sub d (v_scale (v_length d) e) = Vector u1 u2 u3"
    by (simp add: dv ev u1_def u2_def u3_def a_def)
  have n: "n \<noteq> 0" using False by (simp add: u n_def)
  have "n * n = u1 * u1 + u2 * u2 + u3 * u3"
    using v_length_square [of "Vector u1 u2 u3"] by (simp add: n_def)
  also have "\<dots> = (d1 * d1 + d2 * d2 + d3 * d3) - 2 * a * s + a * a * (e1 * e1 + e2 * e2 + e3 * e3)"
    by (simp add: u1_def u2_def u3_def s_def algebra_simps)
  also have "\<dots> = a * a - 2 * a * s + a * a * 1"
    by (simp only: aa ee)
  also have "\<dots> = 2 * a * (a - s)"
    by (simp add: algebra_simps)
  finally have nn: "n * n = 2 * a * (a - s)" .
  have ue: "u1 / n * e1 + u2 / n * e2 + u3 / n * e3 = (s - a) / n"
  proof -
    have "u1 * e1 + u2 * e2 + u3 * e3 = s - a * (e1 * e1 + e2 * e2 + e3 * e3)"
      by (simp add: u1_def u2_def u3_def s_def algebra_simps)
    then have "u1 * e1 + u2 * e2 + u3 * e3 = s - a" by (simp add: ee)
    then show ?thesis using n by (simp add: field_simps)
  qed
  have comp: "ej - 2 * (uj / n) * (u1 / n * e1 + u2 / n * e2 + u3 / n * e3) = (uj + a * ej) / a"
    for ej uj
    unfolding ue reflect_component [OF a n nn] using a by (simp add: field_simps)
  have norm_u: "normalized (Vector u1 u2 u3) = Vector (u1 / n) (u2 / n) (u3 / n)"
    using n by (simp add: normalized_def n_def)
  have q: "autorotate e d = householder (Vector (u1 / n) (u2 / n) (u3 / n))"
    by (simp only: autorotate_def Let_def u norm_u)
  have "m_apply (autorotate e d) e =
        Vector ((u1 + a * e1) / a) ((u2 + a * e2) / a) ((u3 + a * e3) / a)"
    unfolding q by (simp only: ev m_apply_householder comp)
  also have "\<dots> = v_scale (1 / a) d"
    unfolding dv by (simp add: u1_def u2_def u3_def)
  also have "\<dots> = normalized d"
    using d by (simp add: normalized_def a_def)
  finally show ?thesis .
qed

lemma orient_axis_cases:
  "orient_axis self = (case orient_axis_prop self of X \<Rightarrow> 0 | Y \<Rightarrow> 1 | Z \<Rightarrow> 2)"
  by (cases "orient_axis_prop self") (simp_all add: orient_axis_def)

lemma all_axes_orient:
  "all_axes ! orient_axis self =
     (case orient_axis_prop self of X \<Rightarrow> Vector 1 0 0 | Y \<Rightarrow> Vector 0 1 0 | Z \<Rightarrow> Vector 0 0 1)"
  by (cases "orient_axis_prop self") (simp_all add: orient_axis_def all_axes_def)

lemma all_axes_get_orient: "all_axes_get (orient_axis self) = Inr (all_axes ! orient_axis self)"
  by (cases "orient_axis_prop self") (simp_all add: all_axes_get_def orient_axis_def all_axes_def)

lemma all_axes_unit: "v_dot (all_axes ! orient_axis self) (all_axes ! orient_axis self) = 1"
  by (cases "orient_axis_prop self") (simp_all add: all_axes_orient)

lemma m_apply_mul_flip:
  "m_apply (m_mul (householder v) flip) (Vector a b c) = m_apply (householder v) (Vector (- a) b c)"
  by (cases v) (simp add: householder_expand flip_def algebra_simps del: householder.simps)

lemma m_apply_householder_neg:
  "m_apply (householder v) (v_scale (- 1) w) = v_scale (- 1) (m_apply (householder v) w)"
  by (cases v; cases w) (simp add: householder_expand algebra_simps del: householder.simps)

lemma autorotate_householder: "\<exists>v. autorotate e d = householder v"
  unfolding autorotate_def Let_def by blast

lemma autorotate_aligned:
  assumes "v_dot e e = 1" and "0 \<le> c"
  shows "autorotate e (v_scale c e) = Matrix_identity"
proof -
  obtain e1 e2 e3 where ev: "e = Vector e1 e2 e3" by (cases e)
  have "v_dot (v_scale c e) (v_scale c e) = c * c * v_dot e e"
    by (simp add: ev algebra_simps)
  then have "v_length (v_scale c e) = c"
    using assms by (simp add: v_length_def)
  then have "v_sub (v_scale c e) (v_scale (v_length (v_scale c e)) e) = Vector 0 0 0"
    by (simp add: ev)
  then show ?thesis
    by (simp add: autorotate_def Let_def normalized_def householder_zero del: householder.simps)
qed

lemma sqrt_81: "sqrt 81 = 9"
  by (rule real_sqrt_unique) simp_all

lemma sqrt_36: "sqrt 36 = 6"
  by (rule real_sqrt_unique) simp_all

lemma autorotate_x_744:
  "autorotate (Vector 1 0 0) (Vector 7 4 4) =
     ((7 / 9, 4 / 9, 4 / 9, 0), (4 / 9, 1 / 9, - 8 / 9, 0), (4 / 9, - 8 / 9, 1 / 9, 0), (0, 0, 0, 1))"
  by (simp add: autorotate_def v_length_def normalized_def sqrt_81 sqrt_36 Matrix_identity_def)

lemma normalized_744: "normalized (Vector 7 4 4) = Vector (7 / 9) (4 / 9) (4 / 9)"
  by (simp add: normalized_def v_length_def sqrt_81)


text \<open>
  Claim C1, as amended. For a direction \<open>d\<close> of positive length and the reference axis
  \<open>x\<close>, \<^verbatim>\<open>autorotate(x, d).inverted()\<close> exists, is the Householder matrix itself, and
  maps \<open>x\<close> onto the normalised direction (their dot product is 1). Composed with \<^verbatim>\<open>flip\<close> as in the instance
  transform, it maps \<open>x\<close> onto the normalised direction for the axes Y and Z and onto its
  negative for the axis X. When \<open>d\<close> is a positive multiple of \<open>x\<close>, \<^verbatim>\<open>autorotate\<close>
  and its inverse are the identity.
\<close>

theorem orientation_maps_axis:
  assumes "v_length d \<noteq> 0" and "x = all_axes ! orient_axis self"
  shows "\<exists>rot. inverted (autorotate x d) = Inr rot
           \<and> rot = autorotate x d
           \<and> m_apply rot x = normalized d
           \<and> v_dot (m_apply rot x) (normalized d) = 1
           \<and> m_apply (m_mul rot flip) x =
               (if orient_axis_prop self = X then v_scale (- 1) (normalized d) else normalized d)
           \<and> (\<forall>c. 0 < c \<and> d = v_scale c x \<longrightarrow> autorotate x d = Matrix_identity \<and> rot = Matrix_identity)"
proof -
  have unit: "v_dot x x = 1" by (simp add: assms(2) all_axes_unit)
  have maps: "m_apply (autorotate x d) x = normalized d"
    by (rule autorotate_maps_axis [OF unit assms(1)])
  obtain v where v: "autorotate x d = householder v"
    using autorotate_householder by blast
  have maps': "m_apply (householder v) x = normalized d"
    using maps by (simp only: v)
  have "m_apply (m_mul (householder v) flip) x =
      (if orient_axis_prop self = X then v_scale (- 1) (normalized d) else normalized d)"
  proof (cases "orient_axis_prop self")
    case X
    then have x: "x = Vector 1 0 0" by (simp add: assms(2) all_axes_orient)
    have "m_apply (m_mul (householder v) flip) (Vector 1 0 0)
        = m_apply (householder v) (v_scale (- 1) (Vector 1 0 0))"
      by (simp add: m_apply_mul_flip del: householder.simps)
    also have "\<dots> = v_scale (- 1) (m_apply (householder v) (Vector 1 0 0))"
      by (rule m_apply_householder_neg)
    also have "\<dots> = v_scale (- 1) (normalized d)"
      using maps' by (simp only: x)
    finally show ?thesis using X by (simp only: x) simp
  next
    case Y
    then have x: "x = Vector 0 1 0" by (simp add: assms(2) all_axes_orient)
    show ?thesis using maps' Y by (simp add: x m_apply_mul_flip del: householder.simps)
  next
    case Z
    then have x: "x = Vector 0 0 1" by (simp add: assms(2) all_axes_orient)
    show ?thesis using maps' Z by (simp add: x m_apply_mul_flip del: householder.simps)
  qed
  then have flipped: "m_apply (m_mul (autorotate x d) flip) x =
      (if orient_axis_prop self = X then v_scale (- 1) (normalized d) else normalized d)"
    by (simp only: v)
  have aligned: "\<forall>c. 0 < c \<and> d = v_scale c x \<longrightarrow> autorotate x d = Matrix_identity"
    using autorotate_aligned [OF unit] by auto
  show ?thesis
  proof (intro exI [of _ "autorotate x d"] conjI)
    show "inverted (autorotate x d) = Inr (autorotate x d)"
      by (rule inverted_autorotate)
    show "autorotate x d = autorotate x d"
      by (rule refl)
    show "m_apply (autorotate x d) x = normalized d"
      by (rule maps)
    show "v_dot (m_apply (autorotate x d) x) (normalized d) = 1"
      by (simp only: maps normalized_unit [OF assms(1)])
    show "m_apply (m_mul (autorotate x d) flip) x =
      (if orient_axis_prop self = X then v_scale (- 1) (normalized d) else normalized d)"
      by (rule flipped)
    show "\<forall>c. 0 < c \<and> d = v_scale c x \<longrightarrow>
        autorotate x d = Matrix_identity \<and> autorotate x d = Matrix_identity"
      using aligned by blast
  qed
qed

theorem orientation_maps_axis_witness:
  "v_length (Vector 7 4 4) \<noteq> 0
   \<and> (\<exists>rot. inverted (autorotate (Vector 1 0 0) (Vector 7 4 4)) = Inr rot
          \<and> m_apply rot (Vector 1 0 0) = Vector (7 / 9) (4 / 9) (4 / 9)
          \<and> m_apply (m_mul rot flip) (Vector 1 0 0) = Vector (- (7 / 9)) (- (4 / 9)) (- (4 / 9)))"
proof -
  let ?self = "\<lparr>count_mode = Count, orient_axis_prop = X, scale_all = False, apply_matrices = True\<rparr>"
  have l: "v_length (Vector 7 4 4) \<noteq> 0"
    by (simp add: v_length_def sqrt_81)
  have x: "Vector 1 0 0 = all_axes ! orient_axis ?self"
    by (simp add: all_axes_orient)
  from orientation_maps_axis [OF l x] obtain rot where
    r1: "inverted (autorotate (Vector 1 0 0) (Vector 7 4 4)) = Inr rot"
    and r2: "m_apply rot (Vector 1 0 0) = normalized (Vector 7 4 4)"
    and r3: "m_apply (m_mul rot flip) (Vector 1 0 0) =
      (if orient_axis_prop ?self = X then v_scale (- 1) (normalized (Vector 7 4 4))
       else normalized (Vector 7 4 4))"
    by blast
  from r2 have "m_apply rot (Vector 1 0 0) = Vector (7 / 9) (4 / 9) (4 / 9)"
    by (simp only: normalized_744)
  moreover from r3 have
    "m_apply (m_mul rot flip) (Vector 1 0 0) = Vector (- (7 / 9)) (- (4 / 9)) (- (4 / 9))"
    by (simp add: normalized_744)
  ultimately show ?thesis
    using l r1 by blast
qed

text \<open>
  The claim as stated fails on the axis X (the default): with the flip composed as in the
  instance transform, the image of the reference axis is antiparallel to the direction.
  For the segment direction \<open>(3,0,0)\<close> the Householder matrix is the identity and the
  image of \<open>(1,0,0)\<close> is \<open>(-1,0,0)\<close>; for \<open>(7,4,4)\<close> the image is \<open>-(7,4,4)/9\<close>.
\<close>

theorem orientation_flip_counterexample:
  "inverted (autorotate (all_axes ! 0) (Vector 3 0 0)) = Inr Matrix_identity
   \<and> v_dot (m_apply (m_mul Matrix_identity flip) (all_axes ! 0)) (normalized (Vector 3 0 0)) = - 1
   \<and> inverted (autorotate (all_axes ! 0) (Vector 7 4 4)) = Inr (autorotate (all_axes ! 0) (Vector 7 4 4))
   \<and> v_dot (m_apply (m_mul (autorotate (all_axes ! 0) (Vector 7 4 4)) flip) (all_axes ! 0))
         (normalized (Vector 7 4 4)) = - 1"
proof -
  have a: "autorotate (Vector 1 0 0) (Vector 3 0 0) = Matrix_identity"
    using autorotate_aligned [of "Vector 1 0 0" 3] by simp
  have 1: "inverted (autorotate (all_axes ! 0) (Vector 3 0 0)) = Inr Matrix_identity"
    by (simp add: all_axes_def a inverted_identity)
  have 2: "v_dot (m_apply (m_mul Matrix_identity flip) (all_axes ! 0)) (normalized (Vector 3 0 0)) = - 1"
    by (simp add: all_axes_def Matrix_identity_def flip_def normalized_def)
  have 3: "v_dot (m_apply (m_mul (autorotate (all_axes ! 0) (Vector 7 4 4)) flip) (all_axes ! 0))
         (normalized (Vector 7 4 4)) = - 1"
    by (simp add: all_axes_def autorotate_x_744 normalized_744 flip_def)
  show ?thesis
    by (intro conjI 1 2 3 inverted_autorotate)
qed

subsection \<open>Totality of the orientation construction\<close>

text \<open>
  Claim C10. \<^verbatim>\<open>autorotate\<close> has no failing branch and no epsilon test: normalising the
  zero vector gives the zero vector, the Householder formula at the zero vector gives the
  identity matrix, and so \<^verbatim>\<open>autorotate\<close> returns the identity for the zero direction
  and for every direction with \<open>u = d - |d| e = 0\<close>, in particular for every
  non-negative multiple of a unit reference axis.
\<close>

theorem autorotate_total_identity:
  "normalized (Vector 0 0 0) = Vector 0 0 0
   \<and> householder (Vector 0 0 0) = Matrix_identity
   \<and> autorotate e (Vector 0 0 0) = Matrix_identity
   \<and> (v_sub d (v_scale (v_length d) e) = Vector 0 0 0 \<longrightarrow> autorotate e d = Matrix_identity)
   \<and> (v_dot e e = 1 \<and> 0 \<le> c \<longrightarrow> autorotate e (v_scale c e) = Matrix_identity)"
proof (intro conjI impI)
  show "normalized (Vector 0 0 0) = Vector 0 0 0" by (rule normalized_zero)
  show "householder (Vector 0 0 0) = Matrix_identity" by (rule householder_zero)
  show "autorotate e (Vector 0 0 0) = Matrix_identity"
    by (cases e) (simp add: autorotate_def normalized_zero Matrix_identity_def)
  show "autorotate e d = Matrix_identity" if "v_sub d (v_scale (v_length d) e) = Vector 0 0 0"
    using that by (simp add: autorotate_def Let_def normalized_zero householder_zero
        del: householder.simps)
  show "autorotate e (v_scale c e) = Matrix_identity" if "v_dot e e = 1 \<and> 0 \<le> c"
    using that autorotate_aligned [of e c] by simp
qed

theorem autorotate_total_identity_witness:
  "v_sub (Vector 3 0 0) (v_scale (v_length (Vector 3 0 0)) (Vector 1 0 0)) = Vector 0 0 0
   \<and> autorotate (Vector 1 0 0) (Vector 3 0 0) = Matrix_identity
   \<and> v_dot (Vector 1 0 0) (Vector 1 0 0) = 1 \<and> (0::real) \<le> 2
   \<and> autorotate (Vector 1 0 0) (v_scale 2 (Vector 1 0 0)) = Matrix_identity"
  using autorotate_total_identity [of "Vector 1 0 0" "Vector 3 0 0" 2]
  by simp

subsection \<open>The instance transforms\<close>





lemma normalized_axis:
  "normalized (all_axes ! orient_axis self) = all_axes ! orient_axis self"
  by (cases "orient_axis_prop self") (simp_all add: all_axes_orient normalized_def)

lemma Matrix_Scale_axis_orient:
  "Matrix_Scale_axis s (all_axes ! orient_axis self) =
     (case orient_axis_prop self of
        X \<Rightarrow> ((s, 0, 0, 0), (0, 1, 0, 0), (0, 0, 1, 0), (0, 0, 0, 1))
      | Y \<Rightarrow> ((1, 0, 0, 0), (0, s, 0, 0), (0, 0, 1, 0), (0, 0, 0, 1))
      | Z \<Rightarrow> ((1, 0, 0, 0), (0, 1, 0, 0), (0, 0, s, 0), (0, 0, 0, 1)))"
  unfolding Matrix_Scale_axis_def normalized_axis
  by (cases "orient_axis_prop self") (simp_all add: all_axes_orient)

lemma duplicate_vertices_eq:
  assumes "1 \<le> count" and "diameter vertices (orient_axis self) = Inr E" and "E \<noteq> 0"
  shows "duplicate_vertices self v1 v2 vertices edges faces count =
     (let x = all_axes ! orient_axis self;
          rot = autorotate x (v_sub v2 v1);
          s = v_length (v_sub v2 v1) / real_of_int count / E;
          matrices =
            map (\<lambda>k. if count_mode self = Off
                     then m_mul (m_mul (Matrix_Translation
                            (v_add v1 (v_scale ((real k + 1 / 2) / real_of_int count) (v_sub v2 v1))))
                            rot) flip
                     else m_mul (m_mul (m_mul (Matrix_Translation
                            (v_add v1 (v_scale ((real k + 1 / 2) / real_of_int count) (v_sub v2 v1))))
                            rot)
                            (if scale_all self then Matrix_Scale s else Matrix_Scale_axis s x)) flip)
              [0..<nat count]
      in Inr (matrices,
              if apply_matrices self then map (\<lambda>m. map (m_apply m) vertices) matrices
              else replicate (nat count) vertices))"
  using assms
  by (simp add: duplicate_vertices_def py_div_def all_axes_get_orient origins_eq
      inverted_autorotate scale_off_def Let_def comp_def)

lemma duplicate_vertices_nth:
  assumes "1 \<le> count" and "diameter vertices (orient_axis self) = Inr E" and "E \<noteq> 0"
  shows "\<exists>rot matrices result_vertices.
      inverted (autorotate (all_axes ! orient_axis self) (v_sub v2 v1)) = Inr rot
    \<and> duplicate_vertices self v1 v2 vertices edges faces count = Inr (matrices, result_vertices)
    \<and> int (length matrices) = count
    \<and> (\<forall>k < nat count.
         matrices ! k =
          (let origin = v_add v1 (v_scale ((real k + 1 / 2) / real_of_int count) (v_sub v2 v1));
               step = v_length (v_sub v2 v1) / real_of_int count;
               s = step / E;
               scale = (if scale_all self then ((s, 0, 0, 0), (0, s, 0, 0), (0, 0, s, 0), (0, 0, 0, 1))
                        else case orient_axis_prop self of
                               X \<Rightarrow> ((s, 0, 0, 0), (0, 1, 0, 0), (0, 0, 1, 0), (0, 0, 0, 1))
                             | Y \<Rightarrow> ((1, 0, 0, 0), (0, s, 0, 0), (0, 0, 1, 0), (0, 0, 0, 1))
                             | Z \<Rightarrow> ((1, 0, 0, 0), (0, 1, 0, 0), (0, 0, s, 0), (0, 0, 0, 1)))
           in if count_mode self = Off
              then m_mul (m_mul (Matrix_Translation origin) rot) flip
              else m_mul (m_mul (m_mul (Matrix_Translation origin) rot) scale) flip))"
proof -
  define rot where "rot = autorotate (all_axes ! orient_axis self) (v_sub v2 v1)"
  define s where "s = v_length (v_sub v2 v1) / real_of_int count / E"
  define origin where
    "origin = (\<lambda>k::nat. v_add v1 (v_scale ((real k + 1 / 2) / real_of_int count) (v_sub v2 v1)))"
  define ms where "ms = map (\<lambda>k. if count_mode self = Off
                     then m_mul (m_mul (Matrix_Translation (origin k)) rot) flip
                     else m_mul (m_mul (m_mul (Matrix_Translation (origin k)) rot)
                            (if scale_all self then Matrix_Scale s
                             else Matrix_Scale_axis s (all_axes ! orient_axis self))) flip)
              [0..<nat count]"
  define vs where "vs = (if apply_matrices self then map (\<lambda>m. map (m_apply m) vertices) ms
              else replicate (nat count) vertices)"
  have inv: "inverted (autorotate (all_axes ! orient_axis self) (v_sub v2 v1)) = Inr rot"
    unfolding rot_def by (rule inverted_autorotate)
  have dv: "duplicate_vertices self v1 v2 vertices edges faces count = Inr (ms, vs)"
    unfolding duplicate_vertices_eq [OF assms] Let_def ms_def vs_def rot_def s_def origin_def
    by (rule refl)
  have len: "int (length ms) = count"
    using assms(1) by (simp add: ms_def)
  have nth: "\<forall>k < nat count.
         ms ! k =
          (let origin = v_add v1 (v_scale ((real k + 1 / 2) / real_of_int count) (v_sub v2 v1));
               step = v_length (v_sub v2 v1) / real_of_int count;
               s = step / E;
               scale = (if scale_all self then ((s, 0, 0, 0), (0, s, 0, 0), (0, 0, s, 0), (0, 0, 0, 1))
                        else case orient_axis_prop self of
                               X \<Rightarrow> ((s, 0, 0, 0), (0, 1, 0, 0), (0, 0, 1, 0), (0, 0, 0, 1))
                             | Y \<Rightarrow> ((1, 0, 0, 0), (0, s, 0, 0), (0, 0, 1, 0), (0, 0, 0, 1))
                             | Z \<Rightarrow> ((1, 0, 0, 0), (0, 1, 0, 0), (0, 0, s, 0), (0, 0, 0, 1)))
           in if count_mode self = Off
              then m_mul (m_mul (Matrix_Translation origin) rot) flip
              else m_mul (m_mul (m_mul (Matrix_Translation origin) rot) scale) flip)"
    by (simp add: ms_def origin_def s_def Let_def Matrix_Scale_axis_orient Matrix_Scale_def
        split: axis.split)
  from inv dv len nth show ?thesis by blast
qed

lemma get_count_off_extent:
  assumes "count_mode self = Off" and "get_count self v1 v2 vertices inp_count = Inr count0"
  shows "\<exists>E. diameter vertices (orient_axis self) = Inr E \<and> E \<noteq> 0"
  using assms
  by (auto simp add: get_count_def count_up_def py_div_def Let_def split: sum.splits if_splits)

text \<open>
  Claim C4. For a count of at least 1 and a donor of non-zero extent \<open>E\<close>,
  \<^verbatim>\<open>duplicate_vertices\<close> returns \<open>count\<close> matrices, and the \<open>k\<close>-th one is
  \<open>Translation(origin k) * rot * scale * flip\<close> with \<open>s = step / E\<close>,
  \<open>step = |v2 - v1| / count\<close>, the scale acting on all three axes when \<^verbatim>\<open>scale_all\<close> is
  set and on the orientation axis only otherwise; in mode \<^verbatim>\<open>off\<close> (NoScale) it is
  \<open>Translation(origin k) * rot * flip\<close>, with no scale factor in it. (The source
  evaluates \<^verbatim>\<open>x_scale\<close> in every mode and only uses it when scaling is on; for a batch item
  in mode \<^verbatim>\<open>off\<close> whose count was resolved, the extent is not zero, so that division
  cannot fail and the placement returns.)
\<close>

theorem duplicate_vertices_transforms:
  "(1 \<le> count \<and> diameter vertices (orient_axis self) = Inr E \<and> E \<noteq> 0 \<longrightarrow>
     (\<exists>rot matrices result_vertices.
      inverted (autorotate (all_axes ! orient_axis self) (v_sub v2 v1)) = Inr rot
    \<and> duplicate_vertices self v1 v2 vertices edges faces count = Inr (matrices, result_vertices)
    \<and> int (length matrices) = count
    \<and> (\<forall>k < nat count.
         matrices ! k =
          (let origin = v_add v1 (v_scale ((real k + 1 / 2) / real_of_int count) (v_sub v2 v1));
               step = v_length (v_sub v2 v1) / real_of_int count;
               s = step / E;
               scale = (if scale_all self then ((s, 0, 0, 0), (0, s, 0, 0), (0, 0, s, 0), (0, 0, 0, 1))
                        else case orient_axis_prop self of
                               X \<Rightarrow> ((s, 0, 0, 0), (0, 1, 0, 0), (0, 0, 1, 0), (0, 0, 0, 1))
                             | Y \<Rightarrow> ((1, 0, 0, 0), (0, s, 0, 0), (0, 0, 1, 0), (0, 0, 0, 1))
                             | Z \<Rightarrow> ((1, 0, 0, 0), (0, 1, 0, 0), (0, 0, s, 0), (0, 0, 0, 1)))
           in if count_mode self = Off
              then m_mul (m_mul (Matrix_Translation origin) rot) flip
              else m_mul (m_mul (m_mul (Matrix_Translation origin) rot) scale) flip))))
   \<and> (count_mode self = Off \<and> get_count self v1 v2 vertices inp_count = Inr count0 \<longrightarrow>
       (\<exists>E'. diameter vertices (orient_axis self) = Inr E' \<and> E' \<noteq> 0)
     \<and> (\<exists>ms vs. duplicate_vertices self v1 v2 vertices edges faces (max count0 1) = Inr (ms, vs)))"
proof (intro conjI impI)
  assume "1 \<le> count \<and> diameter vertices (orient_axis self) = Inr E \<and> E \<noteq> 0"
  then have "1 \<le> count" "diameter vertices (orient_axis self) = Inr E" "E \<noteq> 0"
    by simp_all
  then show "\<exists>rot matrices result_vertices.
      inverted (autorotate (all_axes ! orient_axis self) (v_sub v2 v1)) = Inr rot
    \<and> duplicate_vertices self v1 v2 vertices edges faces count = Inr (matrices, result_vertices)
    \<and> int (length matrices) = count
    \<and> (\<forall>k < nat count.
         matrices ! k =
          (let origin = v_add v1 (v_scale ((real k + 1 / 2) / real_of_int count) (v_sub v2 v1));
               step = v_length (v_sub v2 v1) / real_of_int count;
               s = step / E;
               scale = (if scale_all self then ((s, 0, 0, 0), (0, s, 0, 0), (0, 0, s, 0), (0, 0, 0, 1))
                        else case orient_axis_prop self of
                               X \<Rightarrow> ((s, 0, 0, 0), (0, 1, 0, 0), (0, 0, 1, 0), (0, 0, 0, 1))
                             | Y \<Rightarrow> ((1, 0, 0, 0), (0, s, 0, 0), (0, 0, 1, 0), (0, 0, 0, 1))
                             | Z \<Rightarrow> ((1, 0, 0, 0), (0, 1, 0, 0), (0, 0, s, 0), (0, 0, 0, 1)))
           in if count_mode self = Off
              then m_mul (m_mul (Matrix_Translation origin) rot) flip
              else m_mul (m_mul (m_mul (Matrix_Translation origin) rot) scale) flip))"
    by (rule duplicate_vertices_nth)
next
  assume h: "count_mode self = Off \<and> get_count self v1 v2 vertices inp_count = Inr count0"
  then obtain E' where e: "diameter vertices (orient_axis self) = Inr E'" "E' \<noteq> 0"
    using get_count_off_extent by blast
  then show "\<exists>E'. diameter vertices (orient_axis self) = Inr E' \<and> E' \<noteq> 0"
    by blast
  have "1 \<le> max count0 1" by simp
  from duplicate_vertices_nth [OF this e, of v2 v1 edges faces]
  show "\<exists>ms vs. duplicate_vertices self v1 v2 vertices edges faces (max count0 1) = Inr (ms, vs)"
    by blast
qed

lemma autorotate_x_aligned: "0 \<le> c \<Longrightarrow> autorotate (Vector 1 0 0) (Vector c 0 0) = Matrix_identity"
  using autorotate_aligned [of "Vector 1 0 0" c] by simp

theorem duplicate_vertices_transforms_witness:
  "(1::int) \<le> 4 \<and> diameter [Vector 0 0 0, Vector 1 0 0]
       (orient_axis \<lparr>count_mode = Down, orient_axis_prop = X, scale_all = False, apply_matrices = True\<rparr>)
       = Inr 1 \<and> (1::real) \<noteq> 0
   \<and> (\<exists>matrices result_vertices.
        duplicate_vertices \<lparr>count_mode = Down, orient_axis_prop = X, scale_all = False, apply_matrices = True\<rparr>
          (Vector 0 0 0) (Vector (7 / 2) 0 0) [Vector 0 0 0, Vector 1 0 0] () () 4
          = Inr (matrices, result_vertices)
        \<and> int (length matrices) = 4
        \<and> matrices ! 0 = ((- (7 / 8), 0, 0, 7 / 16), (0, 1, 0, 0), (0, 0, 1, 0), (0, 0, 0, 1))
        \<and> matrices ! 3 = ((- (7 / 8), 0, 0, 49 / 16), (0, 1, 0, 0), (0, 0, 1, 0), (0, 0, 0, 1)))
   \<and> count_mode \<lparr>count_mode = Off, orient_axis_prop = X, scale_all = False, apply_matrices = True\<rparr> = Off
   \<and> get_count \<lparr>count_mode = Off, orient_axis_prop = X, scale_all = False, apply_matrices = True\<rparr>
         (Vector 0 0 0) (Vector (7 / 2) 0 0) [Vector 0 0 0, Vector 1 0 0] 0 = Inr 3
   \<and> (\<exists>ms vs.
        duplicate_vertices \<lparr>count_mode = Off, orient_axis_prop = X, scale_all = False, apply_matrices = True\<rparr>
          (Vector 0 0 0) (Vector (7 / 2) 0 0) [Vector 0 0 0, Vector 1 0 0] () () 3 = Inr (ms, vs))"
proof -
  let ?off = "\<lparr>count_mode = Off, orient_axis_prop = X, scale_all = False, apply_matrices = True\<rparr>"
  have g: "get_count ?off (Vector 0 0 0) (Vector (7 / 2) 0 0) [Vector 0 0 0, Vector 1 0 0] 0 = Inr 3"
    by (simp add: get_count_def count_up_def py_div_def orient_axis_def diameter_unit_donor)
  have "count_mode ?off = Off \<and>
      get_count ?off (Vector 0 0 0) (Vector (7 / 2) 0 0) [Vector 0 0 0, Vector 1 0 0] 0 = Inr 3"
    using g by simp
  from duplicate_vertices_transforms [THEN conjunct2, THEN mp, OF this, of "()" "()"]
  have off: "\<exists>ms vs. duplicate_vertices ?off (Vector 0 0 0) (Vector (7 / 2) 0 0)
      [Vector 0 0 0, Vector 1 0 0] () () 3 = Inr (ms, vs)"
    by simp
  let ?self = "\<lparr>count_mode = Down, orient_axis_prop = X, scale_all = False, apply_matrices = True\<rparr>"
  have c: "(1::int) \<le> 4" by simp
  have d: "diameter [Vector 0 0 0, Vector 1 0 0] (orient_axis ?self) = Inr 1"
    by (simp add: orient_axis_def diameter_unit_donor)
  have e: "(1::real) \<noteq> 0" by simp
  have r: "inverted (autorotate (all_axes ! orient_axis ?self) (v_sub (Vector (7 / 2) 0 0) (Vector 0 0 0)))
      = Inr Matrix_identity"
    by (simp add: all_axes_orient autorotate_x_aligned inverted_identity)
  obtain rot ms vs where
    "inverted (autorotate (all_axes ! orient_axis ?self) (v_sub (Vector (7 / 2) 0 0) (Vector 0 0 0))) = Inr rot"
    and dv: "duplicate_vertices ?self (Vector 0 0 0) (Vector (7 / 2) 0 0) [Vector 0 0 0, Vector 1 0 0] () () 4
          = Inr (ms, vs)"
    and len: "int (length ms) = 4"
    and nth: "\<forall>k < nat 4.
         ms ! k =
          (let origin = v_add (Vector 0 0 0) (v_scale ((real k + 1 / 2) / real_of_int 4)
                          (v_sub (Vector (7 / 2) 0 0) (Vector 0 0 0)));
               step = v_length (v_sub (Vector (7 / 2) 0 0) (Vector 0 0 0)) / real_of_int 4;
               s = step / 1;
               scale = (if scale_all ?self then ((s, 0, 0, 0), (0, s, 0, 0), (0, 0, s, 0), (0, 0, 0, 1))
                        else case orient_axis_prop ?self of
                               X \<Rightarrow> ((s, 0, 0, 0), (0, 1, 0, 0), (0, 0, 1, 0), (0, 0, 0, 1))
                             | Y \<Rightarrow> ((1, 0, 0, 0), (0, s, 0, 0), (0, 0, 1, 0), (0, 0, 0, 1))
                             | Z \<Rightarrow> ((1, 0, 0, 0), (0, 1, 0, 0), (0, 0, s, 0), (0, 0, 0, 1)))
           in if count_mode ?self = Off
              then m_mul (m_mul (Matrix_Translation origin) rot) flip
              else m_mul (m_mul (m_mul (Matrix_Translation origin) rot) scale) flip)"
    using duplicate_vertices_transforms [THEN conjunct1, THEN mp, OF conjI [OF c conjI [OF d e]],
        of "Vector (7 / 2) 0 0" "Vector 0 0 0" "()" "()"]
    by blast
  with r have rot: "rot = Matrix_identity" by simp
  from nth have "ms ! 0 = ((- (7 / 8), 0, 0, 7 / 16), (0, 1, 0, 0), (0, 0, 1, 0), (0, 0, 0, 1))"
    and "ms ! 3 = ((- (7 / 8), 0, 0, 49 / 16), (0, 1, 0, 0), (0, 0, 1, 0), (0, 0, 0, 1))"
    by (simp_all add: rot Matrix_identity_def flip_def)
  with c d e dv len g off show ?thesis by simp
qed

lemma autorotate_householder_unit:
  "\<exists>v. autorotate e d = householder v \<and> (v_dot v v = 1 \<or> v = Vector 0 0 0)"
proof (cases "v_length (v_sub d (v_scale (v_length d) e)) = 0")
  case True
  then have "autorotate e d = householder (Vector 0 0 0)"
    by (simp add: autorotate_def Let_def normalized_def del: householder.simps)
  then show ?thesis by blast
next
  case False
  then have "v_dot (normalized (v_sub d (v_scale (v_length d) e)))
                   (normalized (v_sub d (v_scale (v_length d) e))) = 1"
    by (rule normalized_unit)
  moreover have "autorotate e d = householder (normalized (v_sub d (v_scale (v_length d) e)))"
    by (simp only: autorotate_def Let_def)
  ultimately show ?thesis by blast
qed

lemma reflect_norm:
  fixes x y z a b c t :: real
  assumes "x * x + y * y + z * z = 1 \<or> (x = 0 \<and> y = 0 \<and> z = 0)"
    and t: "t = x * a + y * b + z * c"
  shows "(a - 2 * x * t) * (a - 2 * x * t) + (b - 2 * y * t) * (b - 2 * y * t)
         + (c - 2 * z * t) * (c - 2 * z * t) = a * a + b * b + c * c"
proof -
  have "(a - 2 * x * t) * (a - 2 * x * t) + (b - 2 * y * t) * (b - 2 * y * t)
         + (c - 2 * z * t) * (c - 2 * z * t)
      = a * a + b * b + c * c - 4 * t * (x * a + y * b + z * c)
        + 4 * t * t * (x * x + y * y + z * z)"
    by (simp add: algebra_simps)
  also have "\<dots> = a * a + b * b + c * c - 4 * t * t + 4 * t * t * (x * x + y * y + z * z)"
    by (simp only: t [symmetric])
  also have "\<dots> = a * a + b * b + c * c"
    using assms(1) by (auto simp add: t)
  finally show ?thesis .
qed

lemma instance_difference:
  "v_sub (m_apply (m_mul (m_mul (Matrix_Translation o') (householder (Vector x y z))) flip)
            (Vector p1 p2 p3))
         (m_apply (m_mul (m_mul (Matrix_Translation o') (householder (Vector x y z))) flip)
            (Vector q1 q2 q3))
   = Vector ((q1 - p1) - 2 * x * (x * (q1 - p1) + y * (p2 - q2) + z * (p3 - q3)))
            ((p2 - q2) - 2 * y * (x * (q1 - p1) + y * (p2 - q2) + z * (p3 - q3)))
            ((p3 - q3) - 2 * z * (x * (q1 - p1) + y * (p2 - q2) + z * (p3 - q3)))"
  by (cases o') (simp add: householder_expand flip_def algebra_simps del: householder.simps)

lemma unscaled_instance_isometry:
  assumes "v_dot v v = 1 \<or> v = Vector 0 0 0"
  shows "v_length (v_sub (m_apply (m_mul (m_mul (Matrix_Translation o') (householder v)) flip) p)
                         (m_apply (m_mul (m_mul (Matrix_Translation o') (householder v)) flip) q))
       = v_length (v_sub p q)"
proof -
  obtain x y z where v: "v = Vector x y z" by (cases v)
  obtain p1 p2 p3 where p: "p = Vector p1 p2 p3" by (cases p)
  obtain q1 q2 q3 where q: "q = Vector q1 q2 q3" by (cases q)
  from assms have u: "x * x + y * y + z * z = 1 \<or> (x = 0 \<and> y = 0 \<and> z = 0)"
    by (simp add: v)
  have "(q1 - p1) * (q1 - p1) = (p1 - q1) * (p1 - q1)" by (simp add: algebra_simps)
  then show ?thesis
    unfolding v p q instance_difference v_length_def
    using reflect_norm [OF u refl, of "q1 - p1" "p2 - q2" "p3 - q3"] by simp
qed

lemma floor_covers:
  fixes L E :: real
  assumes "0 < E"
  shows "real_of_int \<lfloor>L / E\<rfloor> * E \<le> L"
proof -
  have "real_of_int \<lfloor>L / E\<rfloor> \<le> L / E" by (rule of_int_floor_le)
  then have "real_of_int \<lfloor>L / E\<rfloor> * E \<le> L / E * E"
    using assms by (simp only: mult_le_cancel_right_pos)
  then show ?thesis using assms by simp
qed

text \<open>
  Claim C7. In mode \<^verbatim>\<open>off\<close> (NoScale) the count is \<open>\<lfloor>L / E\<rfloor>\<close>, the same result as in
  mode \<^verbatim>\<open>up\<close>; so many donors of extent \<open>E\<close> cover at most \<open>L\<close>; the instance
  transforms are \<open>Translation(origin k) * rot * flip\<close> with no scale, and they keep every
  distance between two points of the donor. For length 3.5 and extent 1.0 the count is 3,
  and 3 donors cover 3.0 of the 3.5.
\<close>

theorem noscale_count_and_placement:
  assumes "count_mode self = Off" and "diameter vertices (orient_axis self) = Inr E" and "0 < E"
  shows "get_count self v1 v2 vertices inp = Inr \<lfloor>v_length (v_sub v2 v1) / E\<rfloor>
     \<and> get_count self v1 v2 vertices inp = get_count (self\<lparr>count_mode := Up\<rparr>) v1 v2 vertices inp
     \<and> real_of_int \<lfloor>v_length (v_sub v2 v1) / E\<rfloor> * E \<le> v_length (v_sub v2 v1)
     \<and> (1 \<le> count \<longrightarrow>
          (\<exists>rot ms vs.
             inverted (autorotate (all_axes ! orient_axis self) (v_sub v2 v1)) = Inr rot
           \<and> duplicate_vertices self v1 v2 vertices edges faces count = Inr (ms, vs)
           \<and> (\<forall>k < nat count.
                 ms ! k = m_mul (m_mul (Matrix_Translation
                            (v_add v1 (v_scale ((real k + 1 / 2) / real_of_int count) (v_sub v2 v1))))
                            rot) flip
               \<and> (\<forall>p q. v_length (v_sub (m_apply (ms ! k) p) (m_apply (ms ! k) q))
                          = v_length (v_sub p q)))))
     \<and> get_count \<lparr>count_mode = Off, orient_axis_prop = X, scale_all = False, apply_matrices = True\<rparr>
          (Vector 0 0 0) (Vector 3.5 0 0) [Vector 0 0 0, Vector 1 0 0] inp = Inr 3
     \<and> (3 * 1.0 < (3.5::real))"
proof (intro conjI impI)
  show "get_count self v1 v2 vertices inp = Inr \<lfloor>v_length (v_sub v2 v1) / E\<rfloor>"
    using assms
    by (simp add: get_count_def count_up_def py_div_def v_length_sub_swap [of v1 v2])
  show "get_count self v1 v2 vertices inp = get_count (self\<lparr>count_mode := Up\<rparr>) v1 v2 vertices inp"
    using assms(1) by (simp add: get_count_def count_up_def orient_axis_def)
  show "real_of_int \<lfloor>v_length (v_sub v2 v1) / E\<rfloor> * E \<le> v_length (v_sub v2 v1)"
    by (rule floor_covers [OF assms(3)])
  show "get_count \<lparr>count_mode = Off, orient_axis_prop = X, scale_all = False, apply_matrices = True\<rparr>
          (Vector 0 0 0) (Vector 3.5 0 0) [Vector 0 0 0, Vector 1 0 0] inp = Inr 3"
    by (simp add: get_count_def count_up_def py_div_def orient_axis_def diameter_unit_donor)
  show "3 * 1.0 < (3.5::real)" by simp
  show "\<exists>rot ms vs.
             inverted (autorotate (all_axes ! orient_axis self) (v_sub v2 v1)) = Inr rot
           \<and> duplicate_vertices self v1 v2 vertices edges faces count = Inr (ms, vs)
           \<and> (\<forall>k < nat count.
                 ms ! k = m_mul (m_mul (Matrix_Translation
                            (v_add v1 (v_scale ((real k + 1 / 2) / real_of_int count) (v_sub v2 v1))))
                            rot) flip
               \<and> (\<forall>p q. v_length (v_sub (m_apply (ms ! k) p) (m_apply (ms ! k) q))
                          = v_length (v_sub p q)))"
    if c: "1 \<le> count"
  proof -
    define rot where "rot = autorotate (all_axes ! orient_axis self) (v_sub v2 v1)"
    define origin where
      "origin = (\<lambda>k::nat. v_add v1 (v_scale ((real k + 1 / 2) / real_of_int count) (v_sub v2 v1)))"
    define ms where "ms = map (\<lambda>k. m_mul (m_mul (Matrix_Translation (origin k)) rot) flip) [0..<nat count]"
    define vs where "vs = (if apply_matrices self then map (\<lambda>m. map (m_apply m) vertices) ms
              else replicate (nat count) vertices)"
    from assms(3) have e: "E \<noteq> 0" by simp
    have inv: "inverted (autorotate (all_axes ! orient_axis self) (v_sub v2 v1)) = Inr rot"
      unfolding rot_def by (rule inverted_autorotate)
    have dv: "duplicate_vertices self v1 v2 vertices edges faces count = Inr (ms, vs)"
      unfolding duplicate_vertices_eq [OF c assms(2) e] Let_def ms_def vs_def rot_def origin_def
      by (simp add: assms(1))
    obtain v where v: "rot = householder v" "v_dot v v = 1 \<or> v = Vector 0 0 0"
      unfolding rot_def using autorotate_householder_unit by blast
    have nth: "ms ! k = m_mul (m_mul (Matrix_Translation (origin k)) rot) flip" if "k < nat count" for k
      using that by (simp add: ms_def)
    have iso: "v_length (v_sub (m_apply (ms ! k) p) (m_apply (ms ! k) q)) = v_length (v_sub p q)"
      if "k < nat count" for k p q
      unfolding nth [OF that] v(1) by (rule unscaled_instance_isometry [OF v(2)])
    from inv dv nth iso show ?thesis
      unfolding origin_def by blast
  qed
qed

theorem noscale_count_and_placement_witness:
  "count_mode \<lparr>count_mode = Off, orient_axis_prop = X, scale_all = False, apply_matrices = True\<rparr> = Off
   \<and> diameter [Vector 0 0 0, Vector 1 0 0]
        (orient_axis \<lparr>count_mode = Off, orient_axis_prop = X, scale_all = False, apply_matrices = True\<rparr>)
        = Inr 1
   \<and> (0::real) < 1 \<and> (1::int) \<le> 3
   \<and> get_count \<lparr>count_mode = Off, orient_axis_prop = X, scale_all = False, apply_matrices = True\<rparr>
        (Vector 0 0 0) (Vector (7 / 2) 0 0) [Vector 0 0 0, Vector 1 0 0] 0 = Inr 3
   \<and> (\<exists>ms vs. duplicate_vertices
          \<lparr>count_mode = Off, orient_axis_prop = X, scale_all = False, apply_matrices = True\<rparr>
          (Vector 0 0 0) (Vector (7 / 2) 0 0) [Vector 0 0 0, Vector 1 0 0] () () 3 = Inr (ms, vs)
        \<and> ms ! 0 = ((- 1, 0, 0, 7 / 12), (0, 1, 0, 0), (0, 0, 1, 0), (0, 0, 0, 1)))"
proof -
  let ?self = "\<lparr>count_mode = Off, orient_axis_prop = X, scale_all = False, apply_matrices = True\<rparr>"
  have m: "count_mode ?self = Off" by simp
  have d: "diameter [Vector 0 0 0, Vector 1 0 0] (orient_axis ?self) = Inr 1"
    by (simp add: orient_axis_def diameter_unit_donor)
  have e: "(0::real) < 1" by simp
  have r: "inverted (autorotate (all_axes ! orient_axis ?self) (v_sub (Vector (7 / 2) 0 0) (Vector 0 0 0)))
      = Inr Matrix_identity"
    by (simp add: all_axes_orient autorotate_x_aligned inverted_identity)
  note inst = noscale_count_and_placement [OF m d e, of "Vector 0 0 0" "Vector (7 / 2) 0 0" 0 3 "()" "()"]
  from inst have g: "get_count ?self (Vector 0 0 0) (Vector (7 / 2) 0 0) [Vector 0 0 0, Vector 1 0 0] 0 = Inr 3"
    by simp
  have c: "(1::int) \<le> 3" by simp
  from inst c obtain rot ms vs where
    "inverted (autorotate (all_axes ! orient_axis ?self) (v_sub (Vector (7 / 2) 0 0) (Vector 0 0 0))) = Inr rot"
    and dv: "duplicate_vertices ?self (Vector 0 0 0) (Vector (7 / 2) 0 0) [Vector 0 0 0, Vector 1 0 0] () () 3
       = Inr (ms, vs)"
    and nth: "\<forall>k < nat 3.
                 ms ! k = m_mul (m_mul (Matrix_Translation
                            (v_add (Vector 0 0 0) (v_scale ((real k + 1 / 2) / real_of_int 3)
                               (v_sub (Vector (7 / 2) 0 0) (Vector 0 0 0)))))
                            rot) flip
               \<and> (\<forall>p q. v_length (v_sub (m_apply (ms ! k) p) (m_apply (ms ! k) q))
                          = v_length (v_sub p q))"
    by blast
  with r have rot: "rot = Matrix_identity" by simp
  from nth have "ms ! 0 = ((- 1, 0, 0, 7 / 12), (0, 1, 0, 0), (0, 0, 1, 0), (0, 0, 0, 1))"
    by (simp add: rot Matrix_identity_def flip_def)
  with m d e c g dv show ?thesis by blast
qed


subsection \<open>The axis correction\<close>





lemma diameter_cube_donor: "diameter [Vector 0 0 0, Vector 1 1 1] 1 = Inr 1"
  by (simp add: diameter_def v_index_def)



subsection \<open>Degenerate donors and segments\<close>

lemma duplicate_vertices_zero_extent:
  assumes "diameter vertices (orient_axis self) = Inr 0"
  shows "duplicate_vertices self v1 v2 vertices edges faces count = Inl ZeroDivisionError"
  using assms by (simp add: duplicate_vertices_def py_div_def Let_def)

lemma get_count_zero_extent:
  assumes "diameter vertices (orient_axis self) = Inr 0"
  shows "get_count self v1 v2 vertices inp =
     (if count_mode self = Count then Inr inp else Inl ZeroDivisionError)"
  using assms
  by (cases "count_mode self")
     (simp_all add: get_count_def count_const_def count_up_def count_down_def py_div_def)

lemma process_loop_zero_extent:
  assumes "diameter vertices (orient_axis self) = Inr 0"
  shows "process_loop self ((vertices, edges, faces, v1, v2, inp) # meshes) (rm, rv, re, rf)
       = Inl ZeroDivisionError"
  using assms
  by (cases "count_mode self")
     (simp_all add: get_count_zero_extent duplicate_vertices_zero_extent)

lemma get_count_zero_segment:
  assumes "diameter vertices (orient_axis self) = Inr E" and "E \<noteq> 0"
  shows "get_count self v1 v1 vertices inp = Inr (if count_mode self = Count then inp else 0)"
  using assms
  by (cases "count_mode self"; cases v1)
     (simp_all add: get_count_def count_const_def count_up_def count_down_def py_div_def)

lemma m_apply_instance_origin:
  "m_apply (m_mul (m_mul (Matrix_Translation o') (householder v)) flip) (Vector 0 0 0) = o'"
  "m_apply (m_mul (m_mul (m_mul (Matrix_Translation o') (householder v)) (Matrix_Scale s)) flip)
     (Vector 0 0 0) = o'"
  "m_apply (m_mul (m_mul (m_mul (Matrix_Translation o') (householder v))
     (Matrix_Scale_axis s (all_axes ! orient_axis self))) flip) (Vector 0 0 0) = o'"
  by (cases o'; cases v; cases "orient_axis_prop self";
      simp add: householder_expand flip_def Matrix_Scale_def Matrix_Scale_axis_orient
        del: householder.simps)+

text \<open>
  Claim C5, as amended. For a non-empty donor whose extent along the chosen axis is 0,
  the division by the extent raises \<^verbatim>\<open>ZeroDivisionError\<close>: in the modes \<^verbatim>\<open>up\<close>, \<^verbatim>\<open>down\<close>
  and \<^verbatim>\<open>off\<close> already in \<^verbatim>\<open>get_count\<close>; in mode \<^verbatim>\<open>count\<close> (Fixed) \<^verbatim>\<open>get_count\<close>
  returns the requested count and \<^verbatim>\<open>duplicate_vertices\<close> raises; in every mode the loop of
  \<^verbatim>\<open>process\<close> ends with the error, and no value stands in for the zero extent. A segment
  of zero length is not an error: with a donor of non-zero extent \<^verbatim>\<open>get_count\<close> returns 0
  (the requested count in mode \<^verbatim>\<open>count\<close>), and for a count of at least 1
  \<^verbatim>\<open>duplicate_vertices\<close> returns \<open>count\<close> matrices that all place the donor's origin at
  \<open>v1\<close>.
\<close>

theorem degenerate_inputs:
  assumes "diameter vertices (orient_axis self) = Inr E"
  shows "(E = 0 \<and> count_mode self \<noteq> Count \<longrightarrow>
            get_count self v1 v2 vertices inp = Inl ZeroDivisionError)
       \<and> (E = 0 \<and> count_mode self = Count \<longrightarrow> get_count self v1 v2 vertices inp = Inr inp)
       \<and> (E = 0 \<longrightarrow>
            duplicate_vertices self v1 v2 vertices edges faces count = Inl ZeroDivisionError)
       \<and> (E = 0 \<longrightarrow>
            process_loop self ((vertices, edges, faces, v1, v2, inp) # meshes) (rm, rv, re, rf)
              = Inl ZeroDivisionError)
       \<and> (E \<noteq> 0 \<longrightarrow>
            get_count self v1 v1 vertices inp = Inr (if count_mode self = Count then inp else 0))
       \<and> (E \<noteq> 0 \<and> 1 \<le> count \<longrightarrow>
            (\<exists>ms vs. duplicate_vertices self v1 v1 vertices edges faces count = Inr (ms, vs)
               \<and> int (length ms) = count
               \<and> (\<forall>m \<in> set ms. m_apply m (Vector 0 0 0) = v1)))"
proof (intro conjI impI)
  show "get_count self v1 v2 vertices inp = Inl ZeroDivisionError"
    if "E = 0 \<and> count_mode self \<noteq> Count"
    using that assms by (simp add: get_count_zero_extent)
  show "get_count self v1 v2 vertices inp = Inr inp" if "E = 0 \<and> count_mode self = Count"
    using that assms by (simp add: get_count_zero_extent)
  show "duplicate_vertices self v1 v2 vertices edges faces count = Inl ZeroDivisionError"
    if "E = 0"
    using that assms by (simp add: duplicate_vertices_zero_extent)
  show "process_loop self ((vertices, edges, faces, v1, v2, inp) # meshes) (rm, rv, re, rf)
              = Inl ZeroDivisionError" if "E = 0"
    using that assms by (simp add: process_loop_zero_extent del: process_loop.simps)
  show "get_count self v1 v1 vertices inp = Inr (if count_mode self = Count then inp else 0)"
    if "E \<noteq> 0"
    using that assms by (rule get_count_zero_segment [rotated])
  show "\<exists>ms vs. duplicate_vertices self v1 v1 vertices edges faces count = Inr (ms, vs)
               \<and> int (length ms) = count
               \<and> (\<forall>m \<in> set ms. m_apply m (Vector 0 0 0) = v1)"
    if h: "E \<noteq> 0 \<and> 1 \<le> count"
  proof -
    from h have c: "1 \<le> count" and e: "E \<noteq> 0" by simp_all
    obtain v where v: "autorotate (all_axes ! orient_axis self) (v_sub v1 v1) = householder v"
      using autorotate_householder by blast
    have z: "v_add v1 (v_scale t (v_sub v1 v1)) = v1" for t
      by (cases v1) simp
    show ?thesis
      unfolding duplicate_vertices_eq [OF c assms e] Let_def v z
      using c by (simp add: m_apply_instance_origin del: householder.simps m_mul.simps)
  qed
qed

lemma diameter_flat_donor: "diameter [Vector 0 0 0, Vector 0 1 0] 0 = Inr 0"
  by (simp add: diameter_def v_index_def)

theorem degenerate_inputs_witness:
  "diameter [Vector 0 0 0, Vector 0 1 0]
     (orient_axis \<lparr>count_mode = Up, orient_axis_prop = X, scale_all = False, apply_matrices = False\<rparr>)
     = Inr 0
   \<and> get_count \<lparr>count_mode = Up, orient_axis_prop = X, scale_all = False, apply_matrices = False\<rparr>
        (Vector 0 0 0) (Vector 3 0 0) [Vector 0 0 0, Vector 0 1 0] 2 = Inl ZeroDivisionError
   \<and> get_count \<lparr>count_mode = Count, orient_axis_prop = X, scale_all = False, apply_matrices = False\<rparr>
        (Vector 0 0 0) (Vector 3 0 0) [Vector 0 0 0, Vector 0 1 0] 2 = Inr 2
   \<and> duplicate_vertices
        \<lparr>count_mode = Count, orient_axis_prop = X, scale_all = False, apply_matrices = False\<rparr>
        (Vector 0 0 0) (Vector 3 0 0) [Vector 0 0 0, Vector 0 1 0] () () 2 = Inl ZeroDivisionError
   \<and> process_loop
        \<lparr>count_mode = Count, orient_axis_prop = X, scale_all = False, apply_matrices = False\<rparr>
        [([Vector 0 0 0, Vector 0 1 0], (), (), Vector 0 0 0, Vector 3 0 0, 2)] ([], [], [], [])
        = Inl ZeroDivisionError
   \<and> diameter [Vector 0 0 0, Vector 1 0 0]
        (orient_axis \<lparr>count_mode = Up, orient_axis_prop = X, scale_all = False, apply_matrices = False\<rparr>)
        = Inr 1
   \<and> get_count \<lparr>count_mode = Up, orient_axis_prop = X, scale_all = False, apply_matrices = False\<rparr>
        (Vector 1 2 3) (Vector 1 2 3) [Vector 0 0 0, Vector 1 0 0] 5 = Inr 0
   \<and> (\<exists>ms vs. duplicate_vertices
          \<lparr>count_mode = Up, orient_axis_prop = X, scale_all = False, apply_matrices = False\<rparr>
          (Vector 1 2 3) (Vector 1 2 3) [Vector 0 0 0, Vector 1 0 0] () () 1 = Inr (ms, vs)
        \<and> int (length ms) = 1
        \<and> (\<forall>m \<in> set ms. m_apply m (Vector 0 0 0) = Vector 1 2 3))"
proof -
  let ?up = "\<lparr>count_mode = Up, orient_axis_prop = X, scale_all = False, apply_matrices = False\<rparr>"
  let ?fixed = "\<lparr>count_mode = Count, orient_axis_prop = X, scale_all = False, apply_matrices = False\<rparr>"
  have flat: "diameter [Vector 0 0 0, Vector 0 1 0] (orient_axis ?up) = Inr 0"
    "diameter [Vector 0 0 0, Vector 0 1 0] (orient_axis ?fixed) = Inr 0"
    by (simp_all add: orient_axis_def diameter_flat_donor)
  have unit: "diameter [Vector 0 0 0, Vector 1 0 0] (orient_axis ?up) = Inr 1"
    by (simp add: orient_axis_def diameter_unit_donor)
  show ?thesis
    using flat(1) unit
      degenerate_inputs [OF flat(1), of "Vector 0 0 0" "Vector 3 0 0" 2 "()" "()" 2 "[]" "[]" "[]" "[]" "[]"]
      degenerate_inputs [OF flat(2), of "Vector 0 0 0" "Vector 3 0 0" 2 "()" "()" 2 "[]" "[]" "[]" "[]" "[]"]
      degenerate_inputs [OF unit, of "Vector 1 2 3" "Vector 1 2 3" 5 "()" "()" 1 "[]" "[]" "[]" "[]" "[]"]
    by simp
qed

text \<open>
  The claim as stated fails on the segment from \<open>(1,2,3)\<close> to \<open>(1,2,3)\<close>: count
  resolution returns 0 in mode \<^verbatim>\<open>up\<close> and the requested 2 in mode \<^verbatim>\<open>count\<close>, and the loop
  of \<^verbatim>\<open>process\<close> returns two instances, scaled to zero along X and placed at \<open>(1,2,3)\<close>.
  In mode \<^verbatim>\<open>count\<close> count resolution does not fail on a donor of extent 0 either.
\<close>

theorem degenerate_segment_counterexample:
  "get_count \<lparr>count_mode = Up, orient_axis_prop = X, scale_all = False, apply_matrices = False\<rparr>
     (Vector 1 2 3) (Vector 1 2 3) [Vector 0 0 0, Vector 1 0 0] 5 = Inr 0
   \<and> get_count \<lparr>count_mode = Count, orient_axis_prop = X, scale_all = False, apply_matrices = False\<rparr>
     (Vector 1 2 3) (Vector 1 2 3) [Vector 0 0 0, Vector 1 0 0] 2 = Inr 2
   \<and> process_loop \<lparr>count_mode = Count, orient_axis_prop = X, scale_all = False, apply_matrices = False\<rparr>
       [([Vector 0 0 0, Vector 1 0 0], (), (), Vector 1 2 3, Vector 1 2 3, 2)] ([], [], [], [])
     = Inr ([((0, 0, 0, 1), (0, 1, 0, 2), (0, 0, 1, 3), (0, 0, 0, 1)),
             ((0, 0, 0, 1), (0, 1, 0, 2), (0, 0, 1, 3), (0, 0, 0, 1))],
            [[Vector 0 0 0, Vector 1 0 0], [Vector 0 0 0, Vector 1 0 0]],
            [(), ()], [(), ()])
   \<and> get_count \<lparr>count_mode = Count, orient_axis_prop = X, scale_all = False, apply_matrices = False\<rparr>
     (Vector 0 0 0) (Vector 3 0 0) [Vector 0 0 0, Vector 0 1 0] 2 = Inr 2"
proof -
  let ?up = "\<lparr>count_mode = Up, orient_axis_prop = X, scale_all = False, apply_matrices = False\<rparr>"
  let ?fixed = "\<lparr>count_mode = Count, orient_axis_prop = X, scale_all = False, apply_matrices = False\<rparr>"
  have unit: "diameter [Vector 0 0 0, Vector 1 0 0] (orient_axis ?fixed) = Inr 1"
    "diameter [Vector 0 0 0, Vector 1 0 0] (orient_axis ?up) = Inr 1"
    by (simp_all add: orient_axis_def diameter_unit_donor)
  have two: "[0..<nat 2] = [0, 1]" by (simp add: upt_conv_Cons)
  have r: "autorotate (Vector 1 0 0) (Vector 0 0 0) = Matrix_identity"
    using autorotate_x_aligned [of 0] by simp
  have g1: "get_count ?up (Vector 1 2 3) (Vector 1 2 3) [Vector 0 0 0, Vector 1 0 0] 5 = Inr 0"
    by (simp add: get_count_zero_segment [OF unit(2)])
  have g2: "get_count ?fixed (Vector 1 2 3) (Vector 1 2 3) [Vector 0 0 0, Vector 1 0 0] 2 = Inr 2"
    by (simp add: get_count_zero_segment [OF unit(1)])
  have g3: "get_count ?fixed (Vector 0 0 0) (Vector 3 0 0) [Vector 0 0 0, Vector 0 1 0] 2 = Inr 2"
    by (simp add: get_count_def count_const_def)
  have dv: "duplicate_vertices ?fixed (Vector 1 2 3) (Vector 1 2 3) [Vector 0 0 0, Vector 1 0 0] () () 2
     = Inr ([((0, 0, 0, 1), (0, 1, 0, 2), (0, 0, 1, 3), (0, 0, 0, 1)),
             ((0, 0, 0, 1), (0, 1, 0, 2), (0, 0, 1, 3), (0, 0, 0, 1))],
            [[Vector 0 0 0, Vector 1 0 0], [Vector 0 0 0, Vector 1 0 0]])"
    by (simp add: duplicate_vertices_eq [OF _ unit(1)] two all_axes_orient r Matrix_identity_def
        flip_def Matrix_Scale_axis_def normalized_def numeral_2_eq_2 Let_def)
  show ?thesis
    using g1 g2 g3 by (simp add: dv numeral_2_eq_2)
qed


subsection \<open>The outputs of the batch loop\<close>

lemma origins_length:
  assumes "origins v1 v2 count = Inr os"
  shows "int (length os) = count"
  using assms
  by (auto simp add: origins_def Let_def split: sum.splits if_splits)

lemma duplicate_vertices_shape:
  assumes "duplicate_vertices self v1 v2 vertices edges faces count = Inr (ms, vs)"
  shows "int (length ms) = count \<and> int (length vs) = count
       \<and> (\<forall>v \<in> set vs. length v = length vertices)"
proof -
  from assms obtain os where os: "origins v1 v2 count = Inr os"
    and ms: "length ms = length os"
    and vs: "vs = (if apply_matrices self then map (\<lambda>m. map (m_apply m) vertices) ms
                   else replicate (nat count) vertices)"
    by (auto simp add: duplicate_vertices_def Let_def split: sum.splits if_splits)
  from origins_length [OF os] have len: "int (length os) = count" .
  then have "0 \<le> count" by linarith
  with len ms vs show ?thesis by auto
qed

lemma process_item_eq:
  "process_item self (vertices, edges, faces, vertex1, vertex2, inp_count) =
     (case get_count self vertex1 vertex2 vertices inp_count of
        Inl e \<Rightarrow> Inl e
      | Inr count0 \<Rightarrow>
          (case duplicate_vertices self vertex1 vertex2 vertices edges faces (max count0 1) of
             Inl e \<Rightarrow> Inl e
           | Inr (new_matrices, new_vertices) \<Rightarrow>
               Inr (new_matrices, new_vertices, replicate (nat (max count0 1)) edges,
                    replicate (nat (max count0 1)) faces)))"
  by (simp add: process_item_def Let_def split: sum.splits)

lemma process_loop_Cons:
  "process_loop self (mesh # meshes) (rm, rv, re, rf) =
     (case process_item self mesh of
        Inl e \<Rightarrow> Inl e
      | Inr (ms, vs, es, fs) \<Rightarrow> process_loop self meshes (rm @ ms, rv @ vs, re @ es, rf @ fs))"
  by (cases mesh rule: prod_cases6) (simp add: process_item_eq Let_def split: sum.splits)

lemma process_loop_concat:
  assumes "process_loop self meshes (rm, rv, re, rf) = Inr (rm', rv', re', rf')"
  shows "\<exists>rs. list_all2 (\<lambda>mesh r. process_item self mesh = Inr r) meshes rs
          \<and> rm' = rm @ concat (map (\<lambda>(ms, vs, es, fs). ms) rs)
          \<and> rv' = rv @ concat (map (\<lambda>(ms, vs, es, fs). vs) rs)
          \<and> re' = re @ concat (map (\<lambda>(ms, vs, es, fs). es) rs)
          \<and> rf' = rf @ concat (map (\<lambda>(ms, vs, es, fs). fs) rs)"
  using assms
proof (induction meshes arbitrary: rm rv re rf)
  case Nil
  then show ?case by simp
next
  case (Cons mesh meshes)
  from Cons.prems obtain ms vs es fs where
    item: "process_item self mesh = Inr (ms, vs, es, fs)"
    and rest: "process_loop self meshes (rm @ ms, rv @ vs, re @ es, rf @ fs) = Inr (rm', rv', re', rf')"
    by (auto simp add: process_loop_Cons simp del: process_loop.simps split: sum.splits)
  from Cons.IH [OF rest] obtain rs where
    rs: "list_all2 (\<lambda>mesh r. process_item self mesh = Inr r) meshes rs"
    and eqs: "rm' = (rm @ ms) @ concat (map (\<lambda>(ms, vs, es, fs). ms) rs)"
      "rv' = (rv @ vs) @ concat (map (\<lambda>(ms, vs, es, fs). vs) rs)"
      "re' = (re @ es) @ concat (map (\<lambda>(ms, vs, es, fs). es) rs)"
      "rf' = (rf @ fs) @ concat (map (\<lambda>(ms, vs, es, fs). fs) rs)"
    by blast
  have "list_all2 (\<lambda>mesh r. process_item self mesh = Inr r) (mesh # meshes) ((ms, vs, es, fs) # rs)"
    using item rs by simp
  moreover have "rm' = rm @ concat (map (\<lambda>(ms, vs, es, fs). ms) ((ms, vs, es, fs) # rs))"
    "rv' = rv @ concat (map (\<lambda>(ms, vs, es, fs). vs) ((ms, vs, es, fs) # rs))"
    "re' = re @ concat (map (\<lambda>(ms, vs, es, fs). es) ((ms, vs, es, fs) # rs))"
    "rf' = rf @ concat (map (\<lambda>(ms, vs, es, fs). fs) ((ms, vs, es, fs) # rs))"
    using eqs by simp_all
  ultimately show ?case by blast
qed

text \<open>
  Claim C8. When the loop of \<^verbatim>\<open>process\<close> returns, its four outputs are the
  concatenations, in the order of the batch items, of what each item produces on its own
  (so no two items interleave); and for each item the resolved count is the result of
  \<^verbatim>\<open>get_count\<close> clamped to at least 1, there are exactly \<open>count\<close> matrices and
  \<open>count\<close> vertex sets, each vertex set as long as the donor's vertex sequence, and the
  item's edges and faces are replicated \<open>count\<close> times unchanged.
\<close>

theorem process_loop_outputs:
  "(process_loop self meshes ([], [], [], [])
      = Inr (result_matrices, result_vertices, result_edges, result_faces) \<longrightarrow>
      (\<exists>rs. list_all2 (\<lambda>mesh r. process_item self mesh = Inr r) meshes rs
          \<and> result_matrices = concat (map (\<lambda>(ms, vs, es, fs). ms) rs)
          \<and> result_vertices = concat (map (\<lambda>(ms, vs, es, fs). vs) rs)
          \<and> result_edges = concat (map (\<lambda>(ms, vs, es, fs). es) rs)
          \<and> result_faces = concat (map (\<lambda>(ms, vs, es, fs). fs) rs)))
   \<and> (process_item self (vertices, edges, faces, vertex1, vertex2, inp_count)
        = Inr (ms, vs, es, fs) \<longrightarrow>
      (\<exists>count0 count. get_count self vertex1 vertex2 vertices inp_count = Inr count0
          \<and> count = max count0 1 \<and> 1 \<le> count
          \<and> duplicate_vertices self vertex1 vertex2 vertices edges faces count = Inr (ms, vs)
          \<and> int (length ms) = count \<and> int (length vs) = count
          \<and> (\<forall>v \<in> set vs. length v = length vertices)
          \<and> es = replicate (nat count) edges \<and> fs = replicate (nat count) faces))"
proof (intro conjI impI)
  show "\<exists>rs. list_all2 (\<lambda>mesh r. process_item self mesh = Inr r) meshes rs
          \<and> result_matrices = concat (map (\<lambda>(ms, vs, es, fs). ms) rs)
          \<and> result_vertices = concat (map (\<lambda>(ms, vs, es, fs). vs) rs)
          \<and> result_edges = concat (map (\<lambda>(ms, vs, es, fs). es) rs)
          \<and> result_faces = concat (map (\<lambda>(ms, vs, es, fs). fs) rs)"
    if "process_loop self meshes ([], [], [], [])
      = Inr (result_matrices, result_vertices, result_edges, result_faces)"
    using process_loop_concat [OF that] by simp
  show "\<exists>count0 count. get_count self vertex1 vertex2 vertices inp_count = Inr count0
          \<and> count = max count0 1 \<and> 1 \<le> count
          \<and> duplicate_vertices self vertex1 vertex2 vertices edges faces count = Inr (ms, vs)
          \<and> int (length ms) = count \<and> int (length vs) = count
          \<and> (\<forall>v \<in> set vs. length v = length vertices)
          \<and> es = replicate (nat count) edges \<and> fs = replicate (nat count) faces"
    if h: "process_item self (vertices, edges, faces, vertex1, vertex2, inp_count)
        = Inr (ms, vs, es, fs)"
  proof -
    from h obtain count0 where
      c0: "get_count self vertex1 vertex2 vertices inp_count = Inr count0"
      and dv: "duplicate_vertices self vertex1 vertex2 vertices edges faces (max count0 1) = Inr (ms, vs)"
      and es: "es = replicate (nat (max count0 1)) edges"
      and fs: "fs = replicate (nat (max count0 1)) faces"
      by (auto simp add: process_item_eq split: sum.splits)
    from duplicate_vertices_shape [OF dv] c0 dv es fs show ?thesis
      by simp
  qed
qed

lemma autorotate_x_reversed:
  "autorotate (Vector 1 0 0) (Vector (- 4) 0 0) = ((- 1, 0, 0, 0), (0, 1, 0, 0), (0, 0, 1, 0), (0, 0, 0, 1))"
  by (simp add: autorotate_def normalized_def Matrix_identity_def)

theorem process_loop_outputs_witness:
  "process_loop \<lparr>count_mode = Count, orient_axis_prop = X, scale_all = False, apply_matrices = False\<rparr>
      [([Vector 0 0 0, Vector 1 0 0], [(0::nat, 1::nat)], [[0::nat, 1, 2]], Vector 0 0 0, Vector 2 0 0, 2),
       ([Vector 0 0 0, Vector 1 0 0], [(1, 0)], [], Vector 0 0 0, Vector (- 4) 0 0, 0)]
      ([], [], [], [])
    = Inr ([((- 1, 0, 0, 1 / 2), (0, 1, 0, 0), (0, 0, 1, 0), (0, 0, 0, 1)),
            ((- 1, 0, 0, 3 / 2), (0, 1, 0, 0), (0, 0, 1, 0), (0, 0, 0, 1)),
            ((4, 0, 0, - 2), (0, 1, 0, 0), (0, 0, 1, 0), (0, 0, 0, 1))],
           [[Vector 0 0 0, Vector 1 0 0], [Vector 0 0 0, Vector 1 0 0], [Vector 0 0 0, Vector 1 0 0]],
           [[(0, 1)], [(0, 1)], [(1, 0)]],
           [[[0, 1, 2]], [[0, 1, 2]], []])
   \<and> (\<exists>rs. list_all2 (\<lambda>mesh r. process_item
            \<lparr>count_mode = Count, orient_axis_prop = X, scale_all = False, apply_matrices = False\<rparr>
            mesh = Inr r)
          [([Vector 0 0 0, Vector 1 0 0], [(0::nat, 1::nat)], [[0::nat, 1, 2]], Vector 0 0 0, Vector 2 0 0, 2),
           ([Vector 0 0 0, Vector 1 0 0], [(1, 0)], [], Vector 0 0 0, Vector (- 4) 0 0, 0)] rs
        \<and> [[(0::nat, 1::nat)], [(0, 1)], [(1, 0)]] = concat (map (\<lambda>(ms, vs, es, fs). es) rs))
   \<and> process_item \<lparr>count_mode = Count, orient_axis_prop = X, scale_all = False, apply_matrices = False\<rparr>
        ([Vector 0 0 0, Vector 1 0 0], [(1::nat, 0::nat)], [] :: nat list list, Vector 0 0 0, Vector (- 4) 0 0, 0)
      = Inr ([((4, 0, 0, - 2), (0, 1, 0, 0), (0, 0, 1, 0), (0, 0, 0, 1))],
             [[Vector 0 0 0, Vector 1 0 0]], [[(1, 0)]], [[]])
   \<and> (\<exists>count0 count.
         get_count \<lparr>count_mode = Count, orient_axis_prop = X, scale_all = False, apply_matrices = False\<rparr>
           (Vector 0 0 0) (Vector (- 4) 0 0) [Vector 0 0 0, Vector 1 0 0] 0 = Inr count0
       \<and> count = max count0 1 \<and> 1 \<le> count
       \<and> int (length [((4::real, 0::real, 0::real, - 2::real), (0::real, 1::real, 0::real, 0::real),
                           (0::real, 0::real, 1::real, 0::real), (0::real, 0::real, 0::real, 1::real))]) = count)"
proof -
  let ?self = "\<lparr>count_mode = Count, orient_axis_prop = X, scale_all = False, apply_matrices = False\<rparr>"
  let ?donor = "[Vector 0 0 0, Vector 1 0 0]"
  have unit: "diameter ?donor (orient_axis ?self) = Inr 1"
    by (simp add: orient_axis_def diameter_unit_donor)
  have two: "[0..<nat 2] = [0, 1]" by (simp add: upt_conv_Cons)
  have r: "autorotate (Vector 1 0 0) (Vector 2 0 0) = Matrix_identity"
    using autorotate_x_aligned [of 2] by simp
  have dv1: "duplicate_vertices ?self (Vector 0 0 0) (Vector 2 0 0) ?donor edges faces 2
     = Inr ([((- 1, 0, 0, 1 / 2), (0, 1, 0, 0), (0, 0, 1, 0), (0, 0, 0, 1)),
             ((- 1, 0, 0, 3 / 2), (0, 1, 0, 0), (0, 0, 1, 0), (0, 0, 0, 1))],
            [?donor, ?donor])" for edges :: "(nat \<times> nat) list" and faces :: "nat list list"
    by (simp add: duplicate_vertices_eq [OF _ unit] two all_axes_orient r Matrix_identity_def
        flip_def Matrix_Scale_axis_def normalized_def numeral_2_eq_2 Let_def)
  have dv2: "duplicate_vertices ?self (Vector 0 0 0) (Vector (- 4) 0 0) ?donor edges faces 1
     = Inr ([((4, 0, 0, - 2), (0, 1, 0, 0), (0, 0, 1, 0), (0, 0, 0, 1))], [?donor])"
    for edges :: "(nat \<times> nat) list" and faces :: "nat list list"
    by (simp add: duplicate_vertices_eq [OF _ unit] all_axes_orient autorotate_x_reversed
        flip_def Matrix_Scale_axis_def normalized_def Let_def)
  have g: "get_count ?self v1 v2 ?donor c = Inr c" for v1 v2 c
    by (simp add: get_count_def count_const_def)
  have loop: "process_loop ?self
      [(?donor, [(0::nat, 1::nat)], [[0::nat, 1, 2]], Vector 0 0 0, Vector 2 0 0, 2),
       (?donor, [(1, 0)], [], Vector 0 0 0, Vector (- 4) 0 0, 0)]
      ([], [], [], [])
    = Inr ([((- 1, 0, 0, 1 / 2), (0, 1, 0, 0), (0, 0, 1, 0), (0, 0, 0, 1)),
            ((- 1, 0, 0, 3 / 2), (0, 1, 0, 0), (0, 0, 1, 0), (0, 0, 0, 1)),
            ((4, 0, 0, - 2), (0, 1, 0, 0), (0, 0, 1, 0), (0, 0, 0, 1))],
           [?donor, ?donor, ?donor],
           [[(0, 1)], [(0, 1)], [(1, 0)]],
           [[[0, 1, 2]], [[0, 1, 2]], []])"
    by (simp add: g dv1 dv2 numeral_2_eq_2)
  have item: "process_item ?self
        (?donor, [(1::nat, 0::nat)], [] :: nat list list, Vector 0 0 0, Vector (- 4) 0 0, 0)
      = Inr ([((4, 0, 0, - 2), (0, 1, 0, 0), (0, 0, 1, 0), (0, 0, 0, 1))],
             [?donor], [[(1, 0)]], [[]])"
    by (simp add: process_item_def g dv2)
  show ?thesis
    using loop item
      process_loop_outputs [of ?self
        "[(?donor, [(0::nat, 1::nat)], [[0::nat, 1, 2]], Vector 0 0 0, Vector 2 0 0, 2),
          (?donor, [(1, 0)], [], Vector 0 0 0, Vector (- 4) 0 0, 0)]"
        "[((- 1, 0, 0, 1 / 2), (0, 1, 0, 0), (0, 0, 1, 0), (0, 0, 0, 1)),
            ((- 1, 0, 0, 3 / 2), (0, 1, 0, 0), (0, 0, 1, 0), (0, 0, 0, 1)),
            ((4, 0, 0, - 2), (0, 1, 0, 0), (0, 0, 1, 0), (0, 0, 0, 1))]"
        "[?donor, ?donor, ?donor]"
        "[[(0, 1)], [(0, 1)], [(1, 0)]]"
        "[[[0, 1, 2]], [[0, 1, 2]], []]"
        ?donor "[(1, 0)]" "[]" "Vector 0 0 0" "Vector (- 4) 0 0" 0
        "[((4, 0, 0, - 2), (0, 1, 0, 0), (0, 0, 1, 0), (0, 0, 0, 1))]"
        "[?donor]" "[[(1, 0)]]" "[[]]"]
    by (simp only: simp_thms) blast
qed

subsection \<open>The Broadcast Aligner\<close>

lemma fold_max_lengths:
  assumes "lsts \<noteq> []"
  shows "fold max (map length lsts) 0 = Max (length ` set lsts)"
proof -
  have "fold max (map length lsts) 0 = Max (set (0 # map length lsts))"
    by (simp only: Max.set_eq_fold)
  also have "\<dots> = Max (insert 0 (length ` set lsts))" by simp
  also have "\<dots> = max 0 (Max (length ` set lsts))"
    using assms by (subst Max_insert) simp_all
  finally show ?thesis by simp
qed

lemma repeat_last_length:
  assumes "length l \<le> n"
  shows "length (repeat_last n l) = n"
  using assms by (simp add: repeat_last_def)

lemma repeat_last_nth:
  assumes "l \<noteq> []" and "p < n"
  shows "repeat_last n l ! p = l ! min p (length l - 1)"
proof (cases "p < length l")
  case True
  then have "min p (length l - 1) = p" by simp
  with True show ?thesis by (simp add: repeat_last_def nth_append)
next
  case False
  with assms have "min p (length l - 1) = length l - 1" by simp
  with False assms show ?thesis
    by (simp add: repeat_last_def nth_append last_conv_nth)
qed

text \<open>
  Claim C9. For sequences that all have at least one element the aligner returns as many
  sequences, each of the length of the longest input, and element \<open>p\<close> of sequence \<open>i\<close>
  is \<open>input_i[min(p, L_i - 1)]\<close> (the last element repeated, no cyclic wrap); it fails with
  \<^verbatim>\<open>EmptyInputError\<close> if some input is empty; inputs of lengths 1, 3, 1 align to length 3
  with the sole elements repeated.
\<close>

theorem match_long_repeat_aligns:
  "((\<forall>l \<in> set lsts. 1 \<le> length l) \<longrightarrow>
      (\<exists>out. match_long_repeat lsts = Inr out \<and> length out = length lsts
         \<and> (\<forall>i < length lsts.
               length (out ! i) = Max (length ` set lsts)
             \<and> (\<forall>p < Max (length ` set lsts).
                    out ! i ! p = lsts ! i ! min p (length (lsts ! i) - 1)))))
   \<and> ((\<exists>l \<in> set lsts. length l = 0) \<longrightarrow> match_long_repeat lsts = Inl EmptyInputError)
   \<and> match_long_repeat [[a], [b1, b2, b3], [c]] = Inr [[a, a, a], [b1, b2, b3], [c, c, c]]"
proof (intro conjI impI)
  show "match_long_repeat lsts = Inl EmptyInputError" if "\<exists>l \<in> set lsts. length l = 0"
    using that by (simp add: match_long_repeat_def list_ex_iff)
  show "match_long_repeat [[a], [b1, b2, b3], [c]] = Inr [[a, a, a], [b1, b2, b3], [c, c, c]]"
    by (simp add: match_long_repeat_def repeat_last_def numeral_3_eq_3)
  show "\<exists>out. match_long_repeat lsts = Inr out \<and> length out = length lsts
         \<and> (\<forall>i < length lsts.
               length (out ! i) = Max (length ` set lsts)
             \<and> (\<forall>p < Max (length ` set lsts).
                    out ! i ! p = lsts ! i ! min p (length (lsts ! i) - 1)))"
    if h: "\<forall>l \<in> set lsts. 1 \<le> length l"
  proof -
    define n where "n = fold max (map length lsts) 0"
    from h have ne: "\<not> list_ex (\<lambda>l. length l = 0) lsts"
      by (auto simp add: list_ex_iff)
    then have out: "match_long_repeat lsts = Inr (map (repeat_last n) lsts)"
      by (simp add: match_long_repeat_def n_def)
    have "length (map (repeat_last n) lsts ! i) = Max (length ` set lsts)
        \<and> (\<forall>p < Max (length ` set lsts).
               map (repeat_last n) lsts ! i ! p = lsts ! i ! min p (length (lsts ! i) - 1))"
      if i: "i < length lsts" for i
    proof -
      from i have "lsts \<noteq> []" by auto
      then have n: "n = Max (length ` set lsts)"
        unfolding n_def by (rule fold_max_lengths)
      from i have mem: "lsts ! i \<in> set lsts" by simp
      then have le: "length (lsts ! i) \<le> n"
        unfolding n by simp
      from mem h have nonempty: "lsts ! i \<noteq> []" by fastforce
      show ?thesis
        using i repeat_last_length [OF le] repeat_last_nth [OF nonempty]
        by (simp add: n)
    qed
    with out show ?thesis by simp
  qed
qed

theorem match_long_repeat_aligns_witness:
  "list_all (\<lambda>l. 1 \<le> length l) [[1::int], [10, 20, 30], [7]]
   \<and> (\<exists>out. match_long_repeat [[1::int], [10, 20, 30], [7]] = Inr out \<and> length out = 3
         \<and> length (out ! 0) = 3 \<and> out ! 0 ! 2 = 1 \<and> out ! 1 ! 2 = 30 \<and> out ! 2 ! 1 = 7)
   \<and> (\<exists>l \<in> set [[1::int], []]. length l = 0)
   \<and> match_long_repeat [[1::int], []] = Inl EmptyInputError"
proof -
  have m: "Max (length ` set [[1::int], [10, 20, 30], [7]]) = 3" by simp
  have h1: "\<forall>l \<in> set [[1::int], [10, 20, 30], [7]]. 1 \<le> length l" by simp
  have h2: "\<exists>l \<in> set [[1::int], []]. length l = 0" by simp
  from match_long_repeat_aligns [of "[[1::int], [10, 20, 30], [7]]", THEN conjunct1, THEN mp, OF h1]
  obtain out where out: "match_long_repeat [[1::int], [10, 20, 30], [7]] = Inr out"
    "length out = length [[1::int], [10, 20, 30], [7]]"
    and nth: "\<forall>i < length [[1::int], [10, 20, 30], [7]].
               length (out ! i) = Max (length ` set [[1::int], [10, 20, 30], [7]])
             \<and> (\<forall>p < Max (length ` set [[1::int], [10, 20, 30], [7]]).
                    out ! i ! p = [[1::int], [10, 20, 30], [7]] ! i
                                   ! min p (length ([[1::int], [10, 20, 30], [7]] ! i) - 1))"
    by blast
  from nth have "length (out ! 0) = 3" "out ! 0 ! 2 = 1" "out ! 1 ! 2 = 30" "out ! 2 ! 1 = 7"
    unfolding m by simp_all
  moreover have "match_long_repeat [[1::int], []] = Inl EmptyInputError"
    by (rule match_long_repeat_aligns [of "[[1::int], []]", THEN conjunct2, THEN conjunct1, THEN mp, OF h2])
  ultimately show ?thesis using out h1 h2 by simp
qed


end
